theory Spec2Isabelle
  imports Main
begin

section \<open>Storage bootstrap of the health building block (driven/storage/database.go)\<close>

text \<open>
  The file embeds \<^verbatim>\<open>database.start\<close>, the twenty-four \<^verbatim>\<open>apply*Checks\<close> routines and
  \<^verbatim>\<open>database.onDataChanged\<close>. The Go code talks to a MongoDB server through the
  driver and through the package's \<^verbatim>\<open>collectionWrapper\<close>; both are effects, so the
  server, the clock, the file system and the UUID generator form an explicit
  \<open>world\<close> that every call takes and returns. A Go \<^verbatim>\<open>error\<close> result is an
  \<open>error option\<close> (\<open>None\<close> is \<^verbatim>\<open>nil\<close>); a (value, error) result is a sum with
  \<open>Inl\<close> for the error. \<^verbatim>\<open>log.Println\<close> calls have no effect on any modelled state
  and are left out.
\<close>

subsection \<open>Documents, indexes, collections\<close>

datatype bval = BString string | BInt int | BBool bool | BNull

text \<open>A \<^verbatim>\<open>bson.D\<close>: an ordered list of key/value elements. Filters are documents too.\<close>

type_synonym document = "(string \<times> bval) list"

datatype error =
    DriverError string
  | DeadlineExceeded
  | IndexConflict
  | DuplicateKey
  | DecodeError
  | FileError string
  | UUIDError
  | ErrorsNew string

record index =
  keys :: "(string \<times> int) list"
  unique :: bool

record collection =
  docs :: "document list"
  indexes :: "index list"

subsection \<open>The world outside the process\<close>

text \<open>
  What the network and the server do to the next driver call: how long the call
  takes and whether it is failed (network failure, authentication failure, server
  unreachable, a decoding failure inside the driver, ...). The \<open>script\<close> of a
  world lists the replies to the calls still to come; when it is empty every
  further call is answered at once and without failure.
\<close>

record reply =
  latency :: nat
  failure :: "error option"

record world =
  clock :: int
  script :: "reply list"
  colls :: "string \<times> string \<Rightarrow> collection"
  files :: "string \<Rightarrow> string option"
  uuids :: "string list"

datatype mongoClient = Client string
datatype mongoDatabase = Database mongoClient string
datatype mongoCollection = Collection mongoDatabase string

text \<open>
  \<^verbatim>\<open>collectionWrapper{database: m, coll: ...}\<close>: the back pointer to the database
  object is only used by \<^verbatim>\<open>Watch\<close> to reach \<^verbatim>\<open>onDataChanged\<close> and is not stored.
\<close>

record collectionWrapper =
  coll :: mongoCollection

text \<open>The key of a collection in the server's store: (database name, collection name).\<close>

fun nsOf :: "collectionWrapper \<Rightarrow> string \<times> string" where
  "nsOf cw = (case coll cw of Collection (Database c d) n \<Rightarrow> (d, n))"

subsection \<open>Contexts with deadlines\<close>

text \<open>
  A \<^verbatim>\<open>context.Context\<close> is reduced to its deadline. \<^verbatim>\<open>context.WithTimeout(parent, d)\<close>
  called at time \<open>now\<close> has the deadline \<open>now + d\<close>, or the parent's if that is earlier.
\<close>

type_synonym ctx = "int option"

definition Background :: ctx where
  "Background = None"

definition WithTimeout :: "ctx \<Rightarrow> int \<Rightarrow> int \<Rightarrow> ctx" where
  "WithTimeout parent now d =
     (case parent of None \<Rightarrow> Some (now + d) | Some p \<Rightarrow> Some (min p (now + d)))"

definition nextReply :: "world \<Rightarrow> reply \<times> world" where
  "nextReply w =
     (case script w of
        [] \<Rightarrow> (\<lparr>latency = 0, failure = None\<rparr>, w)
      | r # rs \<Rightarrow> (r, w\<lparr>script := rs\<rparr>))"

text \<open>
  One round trip to the server under a context: the call ends when the reply
  arrives, or at the deadline with \<open>DeadlineExceeded\<close> when the reply is not there
  before it.
\<close>

definition roundTrip :: "ctx \<Rightarrow> world \<Rightarrow> error option \<times> world" where
  "roundTrip c w =
     (case nextReply w of
        (r, w1) \<Rightarrow>
          (let arrival = clock w1 + int (latency r) in
           case c of
             None \<Rightarrow> (failure r, w1\<lparr>clock := arrival\<rparr>)
           | Some d \<Rightarrow>
               if d \<le> arrival then (Some DeadlineExceeded, w1\<lparr>clock := max (clock w1) d\<rparr>)
               else (failure r, w1\<lparr>clock := arrival\<rparr>)))"

subsection \<open>The driver: connect and ping\<close>

definition Connect :: "ctx \<Rightarrow> string \<Rightarrow> world \<Rightarrow> (error + mongoClient) \<times> world" where
  "Connect c uri w =
     (case roundTrip c w of
        (Some e, w1) \<Rightarrow> (Inl e, w1)
      | (None, w1) \<Rightarrow> (Inr (Client uri), w1))"

definition Ping :: "ctx \<Rightarrow> mongoClient \<Rightarrow> world \<Rightarrow> error option \<times> world" where
  "Ping c client w = roundTrip c w"

subsection \<open>The collection wrapper\<close>

text \<open>
  Modelled from the spec: the methods of \<^verbatim>\<open>collectionWrapper\<close> (\<^verbatim>\<open>AddIndex\<close>, \<^verbatim>\<open>Find\<close>,
  \<^verbatim>\<open>FindOne\<close>, \<^verbatim>\<open>InsertOne\<close>, \<^verbatim>\<open>DeleteMany\<close>) are declared in a file of the package
  that is not among the sources. Each is one round trip that the script may fail;
  when it is not failed it does what sections 4.2 and 4.3 of the specification
  say. A filter matches a document when every element of the filter is a field of
  the document with an equal value; dotted keys are not resolved into nested
  documents.
\<close>

definition matches :: "document \<Rightarrow> document \<Rightarrow> bool" where
  "matches flt d = list_all (\<lambda>(k, v). map_of d k = Some v) flt"

definition indexKey :: "(string \<times> int) list \<Rightarrow> document \<Rightarrow> bval option list" where
  "indexKey ks d = map (\<lambda>(k, dir). map_of d k) ks"

text \<open>
  Modelled from the spec: index creation is "a no-op if an equivalent index already
  exists, and [...] a hard failure if a conflicting index exists (e.g., same key
  different uniqueness) or if existing data violates a newly-unique constraint".
\<close>

definition AddIndex ::
  "collectionWrapper \<Rightarrow> (string \<times> int) list \<Rightarrow> bool \<Rightarrow> world \<Rightarrow> error option \<times> world" where
  "AddIndex cw ks uniq w =
     (case roundTrip None w of
        (Some e, w1) \<Rightarrow> (Some e, w1)
      | (None, w1) \<Rightarrow>
          (let c = colls w1 (nsOf cw); idx = \<lparr>keys = ks, unique = uniq\<rparr> in
           if list_ex (\<lambda>i. i = idx) (indexes c) then (None, w1)
           else if list_ex (\<lambda>i. keys i = ks) (indexes c) then (Some IndexConflict, w1)
           else if uniq \<and> \<not> distinct (map (indexKey ks) (docs c)) then (Some DuplicateKey, w1)
           else (None, w1\<lparr>colls := (colls w1)(nsOf cw := c\<lparr>indexes := indexes c @ [idx]\<rparr>)\<rparr>)))"

text \<open>
  Modelled from the spec: \<^verbatim>\<open>Find(filter, &result, nil)\<close> "quer[ies] the collection with
  lookupFilter". The callers only read the number of results, so the documents are
  returned as they are stored.
\<close>

definition Find ::
  "collectionWrapper \<Rightarrow> document \<Rightarrow> world \<Rightarrow> (error + document list) \<times> world" where
  "Find cw flt w =
     (case roundTrip None w of
        (Some e, w1) \<Rightarrow> (Inl e, w1)
      | (None, w1) \<Rightarrow> (Inr (filter (matches flt) (docs (colls w1 (nsOf cw)))), w1))"

text \<open>
  Modelled from the spec: \<^verbatim>\<open>FindOne(filter, &result, nil)\<close> decodes the first matching
  document into the result; with no match the result stays \<^verbatim>\<open>nil\<close>. (A wrapper that
  reports "no documents" as an error instead behaves like a failed reply here.)
\<close>

definition FindOne ::
  "collectionWrapper \<Rightarrow> document \<Rightarrow> (document \<Rightarrow> error + 'a) \<Rightarrow> world \<Rightarrow>
     (error + 'a option) \<times> world" where
  "FindOne cw flt decode w =
     (case roundTrip None w of
        (Some e, w1) \<Rightarrow> (Inl e, w1)
      | (None, w1) \<Rightarrow>
          (case find (matches flt) (docs (colls w1 (nsOf cw))) of
             None \<Rightarrow> (Inr None, w1)
           | Some d \<Rightarrow>
               (case decode d of
                  Inl e \<Rightarrow> (Inl e, w1)
                | Inr v \<Rightarrow> (Inr (Some v), w1))))"

text \<open>
  Modelled from the spec: "Insertion failures (including uniqueness conflicts [...])
  are surfaced, not swallowed". The inserted id is dropped by every caller.
\<close>

definition InsertOne :: "collectionWrapper \<Rightarrow> document \<Rightarrow> world \<Rightarrow> error option \<times> world" where
  "InsertOne cw d w =
     (case roundTrip None w of
        (Some e, w1) \<Rightarrow> (Some e, w1)
      | (None, w1) \<Rightarrow>
          (let c = colls w1 (nsOf cw) in
           if list_ex (\<lambda>i. unique i \<and> list_ex (\<lambda>d'. indexKey (keys i) d' = indexKey (keys i) d) (docs c))
                (indexes c)
           then (Some DuplicateKey, w1)
           else (None, w1\<lparr>colls := (colls w1)(nsOf cw := c\<lparr>docs := docs c @ [d]\<rparr>)\<rparr>)))"

text \<open>
  Modelled from the spec: the pruning operation "removes all documents matching a
  [...] filter"; the result carries the number of deleted documents
  (\<^verbatim>\<open>DeletedCount\<close>). The result pointer is never \<^verbatim>\<open>nil\<close> when the error is.
\<close>

definition DeleteMany ::
  "collectionWrapper \<Rightarrow> document \<Rightarrow> world \<Rightarrow> (error + nat option) \<times> world" where
  "DeleteMany cw flt w =
     (case roundTrip None w of
        (Some e, w1) \<Rightarrow> (Inl e, w1)
      | (None, w1) \<Rightarrow>
          (let c = colls w1 (nsOf cw) in
           (Inr (Some (length (filter (matches flt) (docs c)))),
            w1\<lparr>colls := (colls w1)(nsOf cw := c\<lparr>docs := filter (\<lambda>d. \<not> matches flt d) (docs c)\<rparr>)\<rparr>)))"

subsection \<open>The file system and the UUID generator\<close>

definition ReadFile :: "string \<Rightarrow> world \<Rightarrow> (error + string) \<times> world" where
  "ReadFile path w =
     (case files w path of
        None \<Rightarrow> (Inl (FileError path), w)
      | Some content \<Rightarrow> (Inr content, w))"

definition NewUUID :: "world \<Rightarrow> (error + string) \<times> world" where
  "NewUUID w =
     (case uuids w of
        [] \<Rightarrow> (Inl UUIDError, w)
      | u # us \<Rightarrow> (Inr u, w\<lparr>uuids := us\<rparr>))"

subsection \<open>Sequencing with early return\<close>

text \<open>
  \<^verbatim>\<open>err = f(); if err != nil { return err }; ...\<close> for a call that returns an error
  only, and the same for a call that returns a value and an error.
\<close>

definition andThen ::
  "(world \<Rightarrow> error option \<times> world) \<Rightarrow> (world \<Rightarrow> error option \<times> world) \<Rightarrow>
     world \<Rightarrow> error option \<times> world" where
  "andThen f g w = (case f w of (Some e, w1) \<Rightarrow> (Some e, w1) | (None, w1) \<Rightarrow> g w1)"

definition bindE ::
  "(world \<Rightarrow> (error + 'a) \<times> world) \<Rightarrow> ('a \<Rightarrow> world \<Rightarrow> error option \<times> world) \<Rightarrow>
     world \<Rightarrow> error option \<times> world" where
  "bindE f g w = (case f w of (Inl e, w1) \<Rightarrow> (Some e, w1) | (Inr v, w1) \<Rightarrow> g v w1)"

definition returnNil :: "world \<Rightarrow> error option \<times> world" where
  "returnNil w = (None, w)"

definition returnErr :: "error \<Rightarrow> world \<Rightarrow> error option \<times> world" where
  "returnErr e w = (Some e, w)"

subsection \<open>Typed documents\<close>

text \<open>
  Modelled from the spec: the struct declarations \<^verbatim>\<open>symptomGroup\<close>, \<^verbatim>\<open>county\<close>,
  \<^verbatim>\<open>model.Symptoms\<close> and \<^verbatim>\<open>model.CRules\<close> with their bson field names are not among
  the sources. Seeded content is "keyed by (version, region)": the version is stored
  under \<open>app_version\<close> and the region's identifier under \<open>county_id\<close>, the keys the
  lookup filters of the code use; a region document carries its identifier under
  \<open>_id\<close> and its name under \<open>name\<close>.
\<close>

definition marshalSymptomGroup :: "string \<Rightarrow> string \<Rightarrow> document" where
  "marshalSymptomGroup gid gname = [(''_id'', BString gid), (''name'', BString gname)]"

definition marshalSymptoms :: "string \<Rightarrow> string \<Rightarrow> document" where
  "marshalSymptoms appVersion items =
     [(''app_version'', BString appVersion), (''items'', BString items)]"

definition marshalCRules :: "string \<Rightarrow> string \<Rightarrow> string \<Rightarrow> document" where
  "marshalCRules appVersion countyID rulesData =
     [(''app_version'', BString appVersion), (''county_id'', BString countyID),
      (''data'', BString rulesData)]"

record county =
  ID :: string
  Name :: string

definition stringField :: "document \<Rightarrow> string \<Rightarrow> error + string" where
  "stringField d k =
     (case map_of d k of
        None \<Rightarrow> Inr []
      | Some (BString s) \<Rightarrow> Inr s
      | Some other \<Rightarrow> Inl DecodeError)"

definition decodeCounty :: "document \<Rightarrow> error + county" where
  "decodeCounty d =
     (case stringField d ''_id'' of
        Inl e \<Rightarrow> Inl e
      | Inr i \<Rightarrow>
          (case stringField d ''name'' of
             Inl e \<Rightarrow> Inl e
           | Inr n \<Rightarrow> Inr \<lparr>ID = i, Name = n\<rparr>))"

subsection \<open>The per-collection checks (database.go, lines 244 to 744)\<close>

definition applyConfigsChecks :: "collectionWrapper \<Rightarrow> world \<Rightarrow> error option \<times> world" where
  "applyConfigsChecks configs = returnNil"

definition applyUsersChecks :: "collectionWrapper \<Rightarrow> world \<Rightarrow> error option \<times> world" where
  "applyUsersChecks users =
     andThen (AddIndex users [(''external_id'', 1)] True)
     (andThen (AddIndex users [(''shibboleth_auth.uiucedu_uin'', 1)] False)
     (andThen (AddIndex users [(''uuid'', 1)] False)
     (andThen (AddIndex users [(''re_post'', 1)] False)
     returnNil)))"

definition applyProvidersChecks :: "collectionWrapper \<Rightarrow> world \<Rightarrow> error option \<times> world" where
  "applyProvidersChecks providers = returnNil"

definition applyLocationsChecks :: "collectionWrapper \<Rightarrow> world \<Rightarrow> error option \<times> world" where
  "applyLocationsChecks locations =
     andThen (AddIndex locations [(''provider_id'', 1)] False)
     (andThen (AddIndex locations [(''county_id'', 1)] False)
     returnNil)"

definition applyCTestsChecks :: "collectionWrapper \<Rightarrow> world \<Rightarrow> error option \<times> world" where
  "applyCTestsChecks ctests =
     andThen (AddIndex ctests [(''user_id'', 1)] False)
     (andThen (AddIndex ctests [(''provider_id'', 1)] False)
     (andThen (AddIndex ctests [(''order_number'', 1)] False)
     returnNil))"

definition applyManualTestsChecks :: "collectionWrapper \<Rightarrow> world \<Rightarrow> error option \<times> world" where
  "applyManualTestsChecks manualtests =
     andThen (AddIndex manualtests [(''user_id'', 1)] False)
     (andThen (AddIndex manualtests [(''location_id'', 1)] False)
     (andThen (AddIndex manualtests [(''county_id'', 1)] False)
     (andThen (AddIndex manualtests [(''status'', 1)] False)
     returnNil)))"

definition applyEManualTestsChecks :: "collectionWrapper \<Rightarrow> world \<Rightarrow> error option \<times> world" where
  "applyEManualTestsChecks emanualtests =
     andThen (AddIndex emanualtests [(''user_id'', 1)] False)
     (andThen (AddIndex emanualtests [(''location_id'', 1)] False)
     (andThen (AddIndex emanualtests [(''county_id'', 1)] False)
     (andThen (AddIndex emanualtests [(''status'', 1)] False)
     (let verifiedFilter = [(''status'', BString ''verified'')] in
      bindE (Find emanualtests verifiedFilter) (\<lambda>items.
        if items \<noteq> [] \<and> 0 < length items then
          bindE (DeleteMany emanualtests verifiedFilter) (\<lambda>result.
            case result of
              None \<Rightarrow> returnErr (ErrorsNew ''delete result is nil for some reasons'')
            | Some deleted \<Rightarrow> returnNil)
        else returnNil)))))"

definition applyResourcesChecks :: "collectionWrapper \<Rightarrow> world \<Rightarrow> error option \<times> world" where
  "applyResourcesChecks resources = returnNil"

definition applyFAQChecks :: "collectionWrapper \<Rightarrow> world \<Rightarrow> error option \<times> world" where
  "applyFAQChecks faq = returnNil"

definition applyNewsChecks :: "collectionWrapper \<Rightarrow> world \<Rightarrow> error option \<times> world" where
  "applyNewsChecks news =
     andThen (AddIndex news [(''date'', 1)] False)
     returnNil"

definition applyStatusChecks :: "collectionWrapper \<Rightarrow> world \<Rightarrow> error option \<times> world" where
  "applyStatusChecks status =
     andThen (AddIndex status [(''user_id'', 1)] True)
     returnNil"

definition applyEStatusChecks :: "collectionWrapper \<Rightarrow> world \<Rightarrow> error option \<times> world" where
  "applyEStatusChecks estatus =
     andThen (AddIndex estatus [(''user_id'', 1)] False)
     (andThen (AddIndex estatus [(''app_version'', 1)] False)
     returnNil)"

definition applyHistoryChecks :: "collectionWrapper \<Rightarrow> world \<Rightarrow> error option \<times> world" where
  "applyHistoryChecks history =
     andThen (AddIndex history [(''user_id'', 1)] False)
     (andThen (AddIndex history [(''date'', 1)] False)
     returnNil)"

definition applyEHistoryChecks :: "collectionWrapper \<Rightarrow> world \<Rightarrow> error option \<times> world" where
  "applyEHistoryChecks ehistory =
     andThen (AddIndex ehistory [(''user_id'', 1)] False)
     (andThen (AddIndex ehistory [(''date'', 1)] False)
     returnNil)"

definition applyCountiesChecks :: "collectionWrapper \<Rightarrow> world \<Rightarrow> error option \<times> world" where
  "applyCountiesChecks counties =
     andThen (AddIndex counties [(''guidelines.id'', 1)] False)
     (andThen (AddIndex counties [(''county_statuses.id'', 1)] False)
     returnNil)"

definition applyTestTypesChecks :: "collectionWrapper \<Rightarrow> world \<Rightarrow> error option \<times> world" where
  "applyTestTypesChecks testTypes =
     andThen (AddIndex testTypes [(''results._id'', 1)] False)
     returnNil"

definition applyRulesChecks :: "collectionWrapper \<Rightarrow> world \<Rightarrow> error option \<times> world" where
  "applyRulesChecks rules =
     andThen (AddIndex rules [(''county_id'', 1)] False)
     (andThen (AddIndex rules [(''test_type_id'', 1)] False)
     returnNil)"

definition applySymptomGroupsChecks :: "collectionWrapper \<Rightarrow> world \<Rightarrow> error option \<times> world" where
  "applySymptomGroupsChecks symptomGroups =
     andThen (AddIndex symptomGroups [(''symptoms.id'', 1)] False)
     (let flt = [] in
      bindE (Find symptomGroups flt) (\<lambda>result.
        let hasData = (result \<noteq> [] \<and> 0 < length result) in
        if \<not> hasData then
          bindE NewUUID (\<lambda>gr1ID.
          andThen (InsertOne symptomGroups (marshalSymptomGroup gr1ID ''gr1''))
          (bindE NewUUID (\<lambda>gr2ID.
          andThen (InsertOne symptomGroups (marshalSymptomGroup gr2ID ''gr2''))
          returnNil)))
        else returnNil))"

definition applySymptomRulesChecks :: "collectionWrapper \<Rightarrow> world \<Rightarrow> error option \<times> world" where
  "applySymptomRulesChecks symptomRules =
     andThen (AddIndex symptomRules [(''county_id'', 1)] True)
     returnNil"

definition applySymptomsChecks :: "collectionWrapper \<Rightarrow> world \<Rightarrow> error option \<times> world" where
  "applySymptomsChecks symptoms =
     andThen (AddIndex symptoms [(''app_version'', 1)] False)
     (let flt = [(''app_version'', BString ''2.6'')] in
      bindE (Find symptoms flt) (\<lambda>items.
        if length items \<le> 0 then
          bindE (ReadFile ''./driven/storage/symptoms_2.6.json'') (\<lambda>data.
          andThen (InsertOne symptoms (marshalSymptoms ''2.6'' data))
          returnNil)
        else returnNil))"

definition applyCRulesChecks ::
  "collectionWrapper \<Rightarrow> collectionWrapper \<Rightarrow> world \<Rightarrow> error option \<times> world" where
  "applyCRulesChecks cRules counties =
     andThen (AddIndex cRules [(''app_version'', 1)] False)
     (andThen (AddIndex cRules [(''county_id'', 1)] False)
     (let chFilter = [(''name'', BString ''Champaign'')] in
      bindE (FindOne counties chFilter decodeCounty) (\<lambda>champaignCounty.
        case champaignCounty of
          None \<Rightarrow> returnErr (ErrorsNew ''there is no a Champaign county'')
        | Some ch \<Rightarrow>
            (let flt = [(''app_version'', BString ''2.6''), (''county_id'', BString (ID ch))] in
             bindE (Find cRules flt) (\<lambda>items.
               if length items \<le> 0 then
                 bindE (ReadFile ''./driven/storage/rules_2.6.json'') (\<lambda>data.
                 andThen (InsertOne cRules (marshalCRules ''2.6'' (ID ch) data))
                 returnNil)
               else returnNil)))))"

definition applyTraceExposuresChecks :: "collectionWrapper \<Rightarrow> world \<Rightarrow> error option \<times> world" where
  "applyTraceExposuresChecks traceExposures =
     andThen (AddIndex traceExposures [(''date_added'', 1)] False)
     (andThen (AddIndex traceExposures [(''timestamp'', 1)] False)
     returnNil)"

definition applyAccessRulesChecks :: "collectionWrapper \<Rightarrow> world \<Rightarrow> error option \<times> world" where
  "applyAccessRulesChecks accessRules =
     andThen (AddIndex accessRules [(''county_id'', 1)] True)
     returnNil"

definition applyUINOverridesChecks :: "collectionWrapper \<Rightarrow> world \<Rightarrow> error option \<times> world" where
  "applyUINOverridesChecks uinoverrides =
     andThen (AddIndex uinoverrides [(''uin'', 1)] True)
     (andThen (AddIndex uinoverrides [(''category'', 1)] False)
     returnNil)"

subsection \<open>The database object (database.go, lines 36 to 67)\<close>

datatype StorageListener = StorageListener nat

record database =
  mongoDBAuth :: string
  mongoDBName :: string
  mongoTimeout :: int
  db :: "mongoDatabase option"
  dbClient :: "mongoClient option"
  configs :: "collectionWrapper option"
  users :: "collectionWrapper option"
  providers :: "collectionWrapper option"
  locations :: "collectionWrapper option"
  ctests :: "collectionWrapper option"
  emanualtests :: "collectionWrapper option"
  resources :: "collectionWrapper option"
  faq :: "collectionWrapper option"
  news :: "collectionWrapper option"
  estatus :: "collectionWrapper option"
  ehistory :: "collectionWrapper option"
  counties :: "collectionWrapper option"
  testtypes :: "collectionWrapper option"
  rules :: "collectionWrapper option"
  symptomgroups :: "collectionWrapper option"
  symptomrules :: "collectionWrapper option"
  symptoms :: "collectionWrapper option"
  crules :: "collectionWrapper option"
  traceexposures :: "collectionWrapper option"
  accessrules :: "collectionWrapper option"
  uinoverrides :: "collectionWrapper option"
  listener :: "StorageListener option"

text \<open>
  A task started with \<^verbatim>\<open>go\<close>: \<^verbatim>\<open>go m.configs.Watch(nil)\<close> evaluates its receiver
  \<^verbatim>\<open>m.configs\<close> when the statement is executed. A launch is an event of the run: it
  keeps the task together with the state of the database object and of the world
  at the moment the \<^verbatim>\<open>go\<close> statement is executed, the state from which the new
  goroutine starts. The task itself is not run by the statement.
\<close>

datatype goroutine = Watch "collectionWrapper option"

record launch =
  task :: goroutine
  handleAtLaunch :: database
  worldAtLaunch :: world

subsection \<open>start (database.go, lines 69 to 242)\<close>

text \<open>
  The result is the returned error, the database object as \<^verbatim>\<open>start\<close> leaves it, the
  world, and the launches \<^verbatim>\<open>start\<close> has made, in their order. The wrappers are allocated where
  the code allocates them; allocation has no effect, so the \<open>let\<close>s stand in front
  of the chain of checks. \<^verbatim>\<open>cancel()\<close> releases a context and changes nothing here.
\<close>

definition start :: "database \<Rightarrow> world \<Rightarrow> error option \<times> database \<times> world \<times> launch list" where
  "start m w =
     (let connectContext = WithTimeout Background (clock w) (mongoTimeout m) in
      case Connect connectContext (mongoDBAuth m) w of
        (Inl e, w1) \<Rightarrow> (Some e, m, w1, [])
      | (Inr client, w1) \<Rightarrow>
     (let pingContext = WithTimeout Background (clock w1) (mongoTimeout m) in
      case Ping pingContext client w1 of
        (Some e, w2) \<Rightarrow> (Some e, m, w2, [])
      | (None, w2) \<Rightarrow>
     (let db' = Database client (mongoDBName m);
          configs' = \<lparr>coll = Collection db' ''configs''\<rparr>;
          users' = \<lparr>coll = Collection db' ''users''\<rparr>;
          providers' = \<lparr>coll = Collection db' ''providers''\<rparr>;
          locations' = \<lparr>coll = Collection db' ''locations''\<rparr>;
          ctests' = \<lparr>coll = Collection db' ''ctests''\<rparr>;
          manualtests' = \<lparr>coll = Collection db' ''manualtests''\<rparr>;
          emanualtests' = \<lparr>coll = Collection db' ''emanualtests''\<rparr>;
          resources' = \<lparr>coll = Collection db' ''resources''\<rparr>;
          faq' = \<lparr>coll = Collection db' ''faq''\<rparr>;
          news' = \<lparr>coll = Collection db' ''news''\<rparr>;
          status' = \<lparr>coll = Collection db' ''status''\<rparr>;
          estatus' = \<lparr>coll = Collection db' ''estatus''\<rparr>;
          history' = \<lparr>coll = Collection db' ''history''\<rparr>;
          ehistory' = \<lparr>coll = Collection db' ''ehistory''\<rparr>;
          counties' = \<lparr>coll = Collection db' ''counties''\<rparr>;
          testtypes' = \<lparr>coll = Collection db' ''testtypes''\<rparr>;
          rules' = \<lparr>coll = Collection db' ''rules''\<rparr>;
          symptomgroups' = \<lparr>coll = Collection db' ''symptomgroups''\<rparr>;
          symptomrules' = \<lparr>coll = Collection db' ''symptomrules''\<rparr>;
          symptoms' = \<lparr>coll = Collection db' ''symptoms''\<rparr>;
          crules' = \<lparr>coll = Collection db' ''crules''\<rparr>;
          traceexposures' = \<lparr>coll = Collection db' ''traceexposures''\<rparr>;
          accessrules' = \<lparr>coll = Collection db' ''accessrules''\<rparr>;
          uinoverrides' = \<lparr>coll = Collection db' ''uinoverrides''\<rparr>
      in
      case
        andThen (applyConfigsChecks configs')
       (andThen (applyUsersChecks users')
       (andThen (applyProvidersChecks providers')
       (andThen (applyLocationsChecks locations')
       (andThen (applyCTestsChecks ctests')
       (andThen (applyManualTestsChecks manualtests')
       (andThen (applyEManualTestsChecks emanualtests')
       (andThen (applyResourcesChecks resources')
       (andThen (applyFAQChecks faq')
       (andThen (applyNewsChecks news')
       (andThen (applyStatusChecks status')
       (andThen (applyEStatusChecks estatus')
       (andThen (applyHistoryChecks history')
       (andThen (applyEHistoryChecks ehistory')
       (andThen (applyCountiesChecks counties')
       (andThen (applyTestTypesChecks testtypes')
       (andThen (applyRulesChecks rules')
       (andThen (applySymptomGroupsChecks symptomgroups')
       (andThen (applySymptomRulesChecks symptomrules')
       (andThen (applySymptomsChecks symptoms')
       (andThen (applyCRulesChecks crules' counties')
       (andThen (applyTraceExposuresChecks traceexposures')
       (andThen (applyAccessRulesChecks accessrules')
       (applyUINOverridesChecks uinoverrides'))))))))))))))))))))))) w2
      of
        (Some e, w3) \<Rightarrow> (Some e, m, w3, [])
      | (None, w3) \<Rightarrow>
     (let m1 = m\<lparr>db := Some db', dbClient := Some client,
                  configs := Some configs',
                  users := Some users',
                  providers := Some providers',
                  locations := Some locations',
                  ctests := Some ctests',
                  emanualtests := Some emanualtests',
                  resources := Some resources',
                  faq := Some faq',
                  news := Some news',
                  estatus := Some estatus',
                  ehistory := Some ehistory',
                  counties := Some counties',
                  testtypes := Some testtypes',
                  rules := Some rules',
                  symptomgroups := Some symptomgroups',
                  symptomrules := Some symptomrules',
                  symptoms := Some symptoms',
                  crules := Some crules',
                  traceexposures := Some traceexposures',
                  accessrules := Some accessrules',
                  uinoverrides := Some uinoverrides'\<rparr>
      in (None, m1, w3,
          [\<lparr>task = Watch (configs m1), handleAtLaunch = m1, worldAtLaunch = w3\<rparr>])))))"

subsection \<open>onDataChanged (database.go, lines 746 to 767)\<close>

text \<open>
  A value of type \<^verbatim>\<open>interface{}\<close> as the change feed decodes it: \<^verbatim>\<open>nil\<close>, a scalar, a
  \<^verbatim>\<open>map[string]interface{}\<close> (\<open>IMap\<close>), an ordered document of another Go type
  (\<open>IDoc\<close>) or an array. The change document itself is a \<^verbatim>\<open>map[string]interface{}\<close>
  that may be \<^verbatim>\<open>nil\<close>. Reading a key that a map does not hold gives \<^verbatim>\<open>nil\<close>.
\<close>

datatype ival =
    INil
  | IString string
  | IInt int
  | IBool bool
  | IMap "(string \<times> ival) list"
  | IDoc "(string \<times> ival) list"
  | IArray "ival list"

definition mapIndex :: "(string \<times> ival) list \<Rightarrow> string \<Rightarrow> ival" where
  "mapIndex mp k = (case map_of mp k of None \<Rightarrow> INil | Some v \<Rightarrow> v)"

datatype callback = OnConfigsChanged StorageListener

datatype panic = TypeAssertionPanic

text \<open>
  The result is the list of listener callbacks invoked, or the run-time panic of
  the unchecked type assertion \<^verbatim>\<open>ns.(map[string]interface{})\<close>, which is raised
  before any callback.
\<close>

definition onDataChanged :: "database \<Rightarrow> (string \<times> ival) list option \<Rightarrow> panic + callback list" where
  "onDataChanged m changeDoc =
     (case changeDoc of
        None \<Rightarrow> Inr []
      | Some doc \<Rightarrow>
          (let ns = mapIndex doc ''ns'' in
           if ns = INil then Inr []
           else
             (case ns of
                IMap nsMap \<Rightarrow>
                  (let coll' = mapIndex nsMap ''coll'' in
                   if IString ''configs'' = coll' then
                     (case listener m of
                        Some l \<Rightarrow> Inr [OnConfigsChanged l]
                      | None \<Rightarrow> Inr [])
                   else Inr [])
              | other \<Rightarrow> Inl TypeAssertionPanic)))"

subsection \<open>Vocabulary of the theorems\<close>

text \<open>Running checks in order, stopping at the first that returns an error.\<close>

fun runChecks :: "(world \<Rightarrow> error option \<times> world) list \<Rightarrow> world \<Rightarrow> error option \<times> world" where
  "runChecks [] w = (None, w)"
| "runChecks (c # cs) w =
     (case c w of (Some e, w1) \<Rightarrow> (Some e, w1) | (None, w1) \<Rightarrow> runChecks cs w1)"

text \<open>The wrapper \<^verbatim>\<open>start\<close> allocates for a collection name.\<close>

definition wrapperOf :: "mongoDatabase \<Rightarrow> string \<Rightarrow> collectionWrapper" where
  "wrapperOf d n = \<lparr>coll = Collection d n\<rparr>"

text \<open>The checks of \<^verbatim>\<open>start\<close> in the order of lines 91 to 210, each with its collection name.\<close>

definition provisioning :: "mongoDatabase \<Rightarrow> (string \<times> (world \<Rightarrow> error option \<times> world)) list" where
  "provisioning d =
     [
      (''configs'', applyConfigsChecks (wrapperOf d ''configs'')),
      (''users'', applyUsersChecks (wrapperOf d ''users'')),
      (''providers'', applyProvidersChecks (wrapperOf d ''providers'')),
      (''locations'', applyLocationsChecks (wrapperOf d ''locations'')),
      (''ctests'', applyCTestsChecks (wrapperOf d ''ctests'')),
      (''manualtests'', applyManualTestsChecks (wrapperOf d ''manualtests'')),
      (''emanualtests'', applyEManualTestsChecks (wrapperOf d ''emanualtests'')),
      (''resources'', applyResourcesChecks (wrapperOf d ''resources'')),
      (''faq'', applyFAQChecks (wrapperOf d ''faq'')),
      (''news'', applyNewsChecks (wrapperOf d ''news'')),
      (''status'', applyStatusChecks (wrapperOf d ''status'')),
      (''estatus'', applyEStatusChecks (wrapperOf d ''estatus'')),
      (''history'', applyHistoryChecks (wrapperOf d ''history'')),
      (''ehistory'', applyEHistoryChecks (wrapperOf d ''ehistory'')),
      (''counties'', applyCountiesChecks (wrapperOf d ''counties'')),
      (''testtypes'', applyTestTypesChecks (wrapperOf d ''testtypes'')),
      (''rules'', applyRulesChecks (wrapperOf d ''rules'')),
      (''symptomgroups'', applySymptomGroupsChecks (wrapperOf d ''symptomgroups'')),
      (''symptomrules'', applySymptomRulesChecks (wrapperOf d ''symptomrules'')),
      (''symptoms'', applySymptomsChecks (wrapperOf d ''symptoms'')),
      (''crules'', applyCRulesChecks (wrapperOf d ''crules'') (wrapperOf d ''counties'')),
      (''traceexposures'', applyTraceExposuresChecks (wrapperOf d ''traceexposures'')),
      (''accessrules'', applyAccessRulesChecks (wrapperOf d ''accessrules'')),
      (''uinoverrides'', applyUINOverridesChecks (wrapperOf d ''uinoverrides''))]"

text \<open>The collection fields of the database object, in the order of their declaration.\<close>

definition collectionFields :: "database \<Rightarrow> collectionWrapper option list" where
  "collectionFields m =
     [configs m, users m, providers m, locations m, ctests m, emanualtests m, resources m, faq m, news m, estatus m, ehistory m, counties m, testtypes m, rules m, symptomgroups m, symptomrules m, symptoms m, crules m, traceexposures m, accessrules m, uinoverrides m]"

definition unassigned :: "database \<Rightarrow> bool" where
  "unassigned m = (db m = None \<and> dbClient m = None \<and> list_all (\<lambda>f. f = None) (collectionFields m))"

definition collectionNames :: "database \<Rightarrow> string list" where
  "collectionNames m =
     map (\<lambda>cw. case coll cw of Collection d n \<Rightarrow> n) (List.map_filter (\<lambda>f. f) (collectionFields m))"

text \<open>The database object after the assignments of lines 213 to 236.\<close>

definition assembled :: "database \<Rightarrow> mongoClient \<Rightarrow> database" where
  "assembled m client =
     (let d = Database client (mongoDBName m) in
      m\<lparr>db := Some d, dbClient := Some client,
        configs := Some (wrapperOf d ''configs''),
        users := Some (wrapperOf d ''users''),
        providers := Some (wrapperOf d ''providers''),
        locations := Some (wrapperOf d ''locations''),
        ctests := Some (wrapperOf d ''ctests''),
        emanualtests := Some (wrapperOf d ''emanualtests''),
        resources := Some (wrapperOf d ''resources''),
        faq := Some (wrapperOf d ''faq''),
        news := Some (wrapperOf d ''news''),
        estatus := Some (wrapperOf d ''estatus''),
        ehistory := Some (wrapperOf d ''ehistory''),
        counties := Some (wrapperOf d ''counties''),
        testtypes := Some (wrapperOf d ''testtypes''),
        rules := Some (wrapperOf d ''rules''),
        symptomgroups := Some (wrapperOf d ''symptomgroups''),
        symptomrules := Some (wrapperOf d ''symptomrules''),
        symptoms := Some (wrapperOf d ''symptoms''),
        crules := Some (wrapperOf d ''crules''),
        traceexposures := Some (wrapperOf d ''traceexposures''),
        accessrules := Some (wrapperOf d ''accessrules''),
        uinoverrides := Some (wrapperOf d ''uinoverrides'')\<rparr>)"

text \<open>
  A database object before \<^verbatim>\<open>start\<close>: the configuration and the listener are set,
  the handle fields are \<^verbatim>\<open>nil\<close>.
\<close>

definition newDatabase :: "string \<Rightarrow> string \<Rightarrow> int \<Rightarrow> StorageListener option \<Rightarrow> database" where
  "newDatabase uri dbname timeout l =
     \<lparr>mongoDBAuth = uri, mongoDBName = dbname, mongoTimeout = timeout,
      db = None, dbClient = None,
      configs = None,
      users = None,
      providers = None,
      locations = None,
      ctests = None,
      emanualtests = None,
      resources = None,
      faq = None,
      news = None,
      estatus = None,
      ehistory = None,
      counties = None,
      testtypes = None,
      rules = None,
      symptomgroups = None,
      symptomrules = None,
      symptoms = None,
      crules = None,
      traceexposures = None,
      accessrules = None,
      uinoverrides = None,
      listener = l\<rparr>"

text \<open>Concrete worlds: a store without documents and indexes, and variations of it.\<close>

definition emptyCollection :: collection where
  "emptyCollection = \<lparr>docs = [], indexes = []\<rparr>"

definition seedFiles :: "string \<Rightarrow> string option" where
  "seedFiles path =
     (if path = ''./driven/storage/symptoms_2.6.json'' then Some ''[symptoms]''
      else if path = ''./driven/storage/rules_2.6.json'' then Some ''[rules]''
      else None)"

definition freshWorld :: "(string \<Rightarrow> string option) \<Rightarrow> string list \<Rightarrow> world" where
  "freshWorld fs us =
     \<lparr>clock = 0, script = [], colls = (\<lambda>ns. emptyCollection), files = fs, uuids = us\<rparr>"

definition unreachableWorld :: world where
  "unreachableWorld =
     (freshWorld seedFiles [''uuid-1'', ''uuid-2''])
       \<lparr>script := [\<lparr>latency = 3, failure = Some (DriverError ''server selection error'')\<rparr>]\<rparr>"

definition conflictWorld :: world where
  "conflictWorld =
     (freshWorld seedFiles [''uuid-1'', ''uuid-2''])
       \<lparr>colls := (\<lambda>ns. emptyCollection)
          ((''health'', ''users'') :=
             \<lparr>docs = [], indexes = [\<lparr>keys = [(''external_id'', 1)], unique = False\<rparr>]\<rparr>)\<rparr>"

definition champaignWorld :: world where
  "champaignWorld =
     (freshWorld seedFiles [''uuid-1'', ''uuid-2''])
       \<lparr>colls := (\<lambda>ns. emptyCollection)
          ((''health'', ''counties'') :=
             \<lparr>docs = [[(''_id'', BString ''county-1''), (''name'', BString ''Champaign'')]],
              indexes = []\<rparr>)\<rparr>"

definition slowConflictWorld :: world where
  "slowConflictWorld =
     conflictWorld\<lparr>script := [\<lparr>latency = 6, failure = None\<rparr>, \<lparr>latency = 6, failure = None\<rparr>]\<rparr>"

text \<open>Whether a counties collection holds a document named "Champaign".\<close>

definition hasChampaign :: "collection \<Rightarrow> bool" where
  "hasChampaign c = list_ex (matches [(''name'', BString ''Champaign'')]) (docs c)"

text \<open>
  Frame conditions used in the proofs: a call that leaves the documents of every
  collection as they are, and a call that changes the documents of one collection
  at most.
\<close>

definition keepsDocs :: "(world \<Rightarrow> 'a \<times> world) \<Rightarrow> bool" where
  "keepsDocs f = (\<forall>w ns. docs (colls (snd (f w)) ns) = docs (colls w ns))"

definition docsOutside :: "string \<times> string \<Rightarrow> (world \<Rightarrow> 'a \<times> world) \<Rightarrow> bool" where
  "docsOutside k f = (\<forall>w ns. ns \<noteq> k \<longrightarrow> docs (colls (snd (f w)) ns) = docs (colls w ns))"

text \<open>A manual test document that the pruning filter of \<^verbatim>\<open>applyEManualTestsChecks\<close> matches.\<close>

definition isVerified :: "document \<Rightarrow> bool" where
  "isVerified d = matches [(''status'', BString ''verified'')] d"

definition manualTestsWorld :: world where
  "manualTestsWorld =
     (freshWorld seedFiles [])
       \<lparr>colls := (\<lambda>ns. emptyCollection)
          ((''health'', ''emanualtests'') :=
             \<lparr>docs = [[(''_id'', BString ''t1''), (''status'', BString ''verified'')],
                      [(''_id'', BString ''t2''), (''status'', BString ''unverified'')],
                      [(''_id'', BString ''t3''), (''status'', BString ''verified'')],
                      [(''_id'', BString ''t4''), (''status'', BString ''rejected'')]],
              indexes = []\<rparr>)\<rparr>"

text \<open>The documents of a symptoms collection that the lookup filter of the seeding matches.\<close>

definition symptoms26 :: "collection \<Rightarrow> document list" where
  "symptoms26 c = filter (matches [(''app_version'', BString ''2.6'')]) (docs c)"

text \<open>
  A check provisions idempotently from a world when a second run in a row leaves
  the indexes of every collection as the first run left them, without duplicates.
\<close>

definition provisionsIdempotently :: "world \<Rightarrow> (world \<Rightarrow> error option \<times> world) \<Rightarrow> bool" where
  "provisionsIdempotently w chk =
     (let w1 = snd (chk w); w2 = snd (chk w1)
      in \<forall>ns. indexes (colls w2 ns) = indexes (colls w1 ns) \<and> distinct (indexes (colls w2 ns)))"

section \<open>Sequencing lemmas\<close>

lemma andThen_returnNil: "andThen f returnNil = f"
  by (rule ext) (simp add: andThen_def returnNil_def split: prod.splits option.splits)

lemma runChecks_Cons: "runChecks (c # cs) = andThen c (runChecks cs)"
  by (rule ext) (simp add: andThen_def)

lemma runChecks_Nil: "runChecks [] = returnNil"
  by (rule ext) (simp add: returnNil_def)

text \<open>
  \<^verbatim>\<open>start\<close> is: connect under a fresh deadline, ping under a fresh deadline, the
  checks of \<open>provisioning\<close> in order, the assignments, the launch of the watch.
\<close>

lemma start_eq:
  "start m w =
     (case Connect (Some (clock w + mongoTimeout m)) (mongoDBAuth m) w of
        (Inl e, w1) \<Rightarrow> (Some e, m, w1, [])
      | (Inr client, w1) \<Rightarrow>
          (case Ping (Some (clock w1 + mongoTimeout m)) client w1 of
             (Some e, w2) \<Rightarrow> (Some e, m, w2, [])
           | (None, w2) \<Rightarrow>
               (case runChecks (map snd (provisioning (Database client (mongoDBName m)))) w2 of
                  (Some e, w3) \<Rightarrow> (Some e, m, w3, [])
                | (None, w3) \<Rightarrow>
                    (None, assembled m client, w3,
                     [\<lparr>task = Watch (Some (wrapperOf (Database client (mongoDBName m)) ''configs'')),
                       handleAtLaunch = assembled m client, worldAtLaunch = w3\<rparr>]))))"
  by (simp add: start_def Let_def WithTimeout_def Background_def provisioning_def wrapperOf_def
    assembled_def runChecks_Cons runChecks_Nil andThen_returnNil del: runChecks.simps
    split: prod.splits sum.splits option.splits)

section \<open>The change notifier\<close>

lemma onDataChanged_map_namespace:
  assumes "mapIndex doc ''ns'' = IMap nsMap"
  shows "onDataChanged m (Some doc) =
           Inr (if mapIndex nsMap ''coll'' = IString ''configs''
                then (case listener m of Some l \<Rightarrow> [OnConfigsChanged l] | None \<Rightarrow> [])
                else [])"
  using assms by (auto simp: onDataChanged_def Let_def split: option.splits)

text \<open>
  Claim C2. For a change document whose namespace is a \<^verbatim>\<open>map[string]interface{}\<close>
  the dispatch is as claimed (\<open>onDataChanged_map_namespace\<close> above): with a
  registered listener, one \<^verbatim>\<open>OnConfigsChanged\<close> callback when the collection name
  is "configs", none for any other name. The claim is about every change document,
  though, and a change document whose namespace is a document of another Go type
  that names the configs collection gets no callback, although a listener is
  registered: the unchecked type assertion of line 755 panics before the collection
  name is read. This is the defect of Claim C9.
\<close>

theorem onDataChanged_configs_event_lost:
  "onDataChanged (newDatabase ''mongodb://db'' ''health'' 10 (Some (StorageListener 0)))
     (Some [(''operationType'', IString ''update''),
            (''ns'', IDoc [(''db'', IString ''health''), (''coll'', IString ''configs'')])])
     = Inl TypeAssertionPanic"
  by (simp add: onDataChanged_def mapIndex_def)

lemma onDataChanged_foreign_namespace:
  assumes "mapIndex doc ''ns'' \<noteq> INil" and "\<forall>nsMap. mapIndex doc ''ns'' \<noteq> IMap nsMap"
  shows "onDataChanged m (Some doc) = Inl TypeAssertionPanic"
  using assms by (cases "mapIndex doc ''ns''") (auto simp: onDataChanged_def)

text \<open>
  Claim C9. The absent cases are handled (\<open>onDataChanged_absent_dropped\<close> below): a
  \<^verbatim>\<open>nil\<close> document, a document without \<open>ns\<close> or with a \<^verbatim>\<open>nil\<close> one, and a namespace
  map without \<open>coll\<close> are dropped without a callback. But the namespace is read by
  the unchecked type assertion \<^verbatim>\<open>ns.(map[string]interface{})\<close> of line 755: a
  namespace of any other shape makes \<^verbatim>\<open>onDataChanged\<close> panic instead of dropping the
  event. Here the namespace is an ordered document that carries no collection name.
\<close>

theorem onDataChanged_panics_on_foreign_namespace:
  "onDataChanged m (Some [(''ns'', IDoc [(''db'', IString ''health'')])]) = Inl TypeAssertionPanic"
  by (simp add: onDataChanged_def mapIndex_def)

lemma onDataChanged_absent_dropped:
  "onDataChanged m None = Inr []"
  "mapIndex doc ''ns'' = INil \<Longrightarrow> onDataChanged m (Some doc) = Inr []"
  "mapIndex doc ''ns'' = IMap nsMap \<Longrightarrow> mapIndex nsMap ''coll'' = INil \<Longrightarrow>
     onDataChanged m (Some doc) = Inr []"
  by (simp_all add: onDataChanged_def)

section \<open>Failure of start\<close>

lemma runChecks_append:
  "runChecks (xs @ ys) w =
     (case runChecks xs w of (Some e, w1) \<Rightarrow> (Some e, w1) | (None, w1) \<Rightarrow> runChecks ys w1)"
  by (induction xs arbitrary: w) (auto split: prod.splits option.splits)

lemma runChecks_Some:
  "runChecks cs w = (Some e, w') \<Longrightarrow>
     \<exists>pre c post w0. cs = pre @ c # post \<and> runChecks pre w = (None, w0) \<and> c w0 = (Some e, w')"
proof (induction cs arbitrary: w)
  case Nil
  then show ?case by simp
next
  case (Cons c cs)
  show ?case
  proof (cases "c w")
    case (Pair r w1)
    show ?thesis
    proof (cases r)
      case None
      with Pair Cons.prems have "runChecks cs w1 = (Some e, w')" by simp
      from Cons.IH [OF this] obtain pre c' post w0 where
        "cs = pre @ c' # post" "runChecks pre w1 = (None, w0)" "c' w0 = (Some e, w')"
        by blast
      then have "c # cs = (c # pre) @ c' # post \<and> runChecks (c # pre) w = (None, w0) \<and>
                 c' w0 = (Some e, w')"
        using Pair None by simp
      then show ?thesis by blast
    next
      case (Some e')
      with Pair Cons.prems have "c w = (Some e, w')" by simp
      then have "c # cs = [] @ c # cs \<and> runChecks [] w = (None, w) \<and> c w = (Some e, w')"
        by simp
      then show ?thesis by blast
    qed
  qed
qed


lemma map_snd_split:
  "map snd ps = pre @ c # post \<Longrightarrow>
     \<exists>pre' name post'. ps = pre' @ (name, c) # post' \<and> map snd pre' = pre \<and> map snd post' = post"
  by (fastforce simp: map_eq_append_conv map_eq_Cons_conv)

text \<open>
  Claim C1. Whichever step of \<^verbatim>\<open>start\<close> fails (connect, ping, or a check of
  \<open>provisioning\<close> after the checks before it have passed), \<^verbatim>\<open>start\<close> returns the
  error of that step, the database object is the one it was given (so a handle
  whose fields are \<^verbatim>\<open>nil\<close> keeps them \<^verbatim>\<open>nil\<close>) and no goroutine has been launched.
  Conversely an error returned by \<^verbatim>\<open>start\<close> is the error of such a step.
\<close>

theorem start_failure_is_atomic:
  "(Connect (WithTimeout Background (clock w) (mongoTimeout m)) (mongoDBAuth m) w = (Inl e1, w1) \<longrightarrow>
      start m w = (Some e1, m, w1, [])) \<and>
   (Connect (WithTimeout Background (clock w) (mongoTimeout m)) (mongoDBAuth m) w = (Inr client, w1') \<and>
    Ping (WithTimeout Background (clock w1') (mongoTimeout m)) client w1' = (Some e2, w2) \<longrightarrow>
      start m w = (Some e2, m, w2, [])) \<and>
   (Connect (WithTimeout Background (clock w) (mongoTimeout m)) (mongoDBAuth m) w = (Inr client, w1') \<and>
    Ping (WithTimeout Background (clock w1') (mongoTimeout m)) client w1' = (None, w2') \<and>
    provisioning (Database client (mongoDBName m)) = pre @ (name, chk) # post \<and>
    runChecks (map snd pre) w2' = (None, w3) \<and> chk w3 = (Some e3, w4) \<longrightarrow>
      start m w = (Some e3, m, w4, [])) \<and>
   (start m w = (Some e, m', w', gs) \<longrightarrow>
      m' = m \<and> gs = [] \<and> (unassigned m \<longrightarrow> unassigned m') \<and>
      (Connect (WithTimeout Background (clock w) (mongoTimeout m)) (mongoDBAuth m) w = (Inl e, w') \<or>
       (\<exists>c v1. Connect (WithTimeout Background (clock w) (mongoTimeout m)) (mongoDBAuth m) w = (Inr c, v1) \<and>
          (Ping (WithTimeout Background (clock v1) (mongoTimeout m)) c v1 = (Some e, w') \<or>
           (\<exists>v2 pre' name' chk' post' v3.
              Ping (WithTimeout Background (clock v1) (mongoTimeout m)) c v1 = (None, v2) \<and>
              provisioning (Database c (mongoDBName m)) = pre' @ (name', chk') # post' \<and>
              runChecks (map snd pre') v2 = (None, v3) \<and> chk' v3 = (Some e, w'))))))"
proof (intro conjI impI)
  assume "Connect (WithTimeout Background (clock w) (mongoTimeout m)) (mongoDBAuth m) w = (Inl e1, w1)"
  then show "start m w = (Some e1, m, w1, [])"
    by (simp add: start_eq WithTimeout_def Background_def)
next
  assume "Connect (WithTimeout Background (clock w) (mongoTimeout m)) (mongoDBAuth m) w = (Inr client, w1') \<and>
    Ping (WithTimeout Background (clock w1') (mongoTimeout m)) client w1' = (Some e2, w2)"
  then show "start m w = (Some e2, m, w2, [])"
    by (simp add: start_eq WithTimeout_def Background_def)
next
  assume a: "Connect (WithTimeout Background (clock w) (mongoTimeout m)) (mongoDBAuth m) w = (Inr client, w1') \<and>
    Ping (WithTimeout Background (clock w1') (mongoTimeout m)) client w1' = (None, w2') \<and>
    provisioning (Database client (mongoDBName m)) = pre @ (name, chk) # post \<and>
    runChecks (map snd pre) w2' = (None, w3) \<and> chk w3 = (Some e3, w4)"
  then have "runChecks (map snd (provisioning (Database client (mongoDBName m)))) w2' = (Some e3, w4)"
    by (simp add: runChecks_append)
  with a show "start m w = (Some e3, m, w4, [])"
    by (simp add: start_eq WithTimeout_def Background_def)
next
  assume s: "start m w = (Some e, m', w', gs)"
  then show "m' = m" and "gs = []"
    by (auto simp: start_eq split: prod.splits sum.splits option.splits)
  then show "unassigned m \<Longrightarrow> unassigned m'" by simp
  show "Connect (WithTimeout Background (clock w) (mongoTimeout m)) (mongoDBAuth m) w = (Inl e, w') \<or>
       (\<exists>c v1. Connect (WithTimeout Background (clock w) (mongoTimeout m)) (mongoDBAuth m) w = (Inr c, v1) \<and>
          (Ping (WithTimeout Background (clock v1) (mongoTimeout m)) c v1 = (Some e, w') \<or>
           (\<exists>v2 pre' name' chk' post' v3.
              Ping (WithTimeout Background (clock v1) (mongoTimeout m)) c v1 = (None, v2) \<and>
              provisioning (Database c (mongoDBName m)) = pre' @ (name', chk') # post' \<and>
              runChecks (map snd pre') v2 = (None, v3) \<and> chk' v3 = (Some e, w'))))"
  proof (cases "Connect (Some (clock w + mongoTimeout m)) (mongoDBAuth m) w")
    case (Pair r v1)
    show ?thesis
    proof (cases r)
      case (Inl e')
      with Pair s show ?thesis
        by (simp add: start_eq WithTimeout_def Background_def)
    next
      case (Inr c)
      show ?thesis
      proof (cases "Ping (Some (clock v1 + mongoTimeout m)) c v1")
        case pp: (Pair r2 v2)
        show ?thesis
        proof (cases r2)
          case (Some e')
          with Pair Inr pp s show ?thesis
            by (simp add: start_eq WithTimeout_def Background_def)
        next
          case None
          with Pair Inr pp s
          have "runChecks (map snd (provisioning (Database c (mongoDBName m)))) v2 = (Some e, w')"
            by (auto simp: start_eq split: prod.splits option.splits)
          from runChecks_Some [OF this] obtain pre0 c0 post0 v3 where
            sp: "map snd (provisioning (Database c (mongoDBName m))) = pre0 @ c0 # post0"
            and r: "runChecks pre0 v2 = (None, v3)" "c0 v3 = (Some e, w')"
            by blast
          from map_snd_split [OF sp] obtain pre' name' post' where
            "provisioning (Database c (mongoDBName m)) = pre' @ (name', c0) # post'"
            "map snd pre' = pre0"
            by blast
          with r Pair Inr pp None show ?thesis
            by (auto simp: WithTimeout_def Background_def)
        qed
      qed
    qed
  qed
qed

theorem start_failure_is_atomic_witness:
  "start (newDatabase ''mongodb://db'' ''health'' 10 None) unreachableWorld =
     (Some (DriverError ''server selection error''),
      newDatabase ''mongodb://db'' ''health'' 10 None,
      unreachableWorld\<lparr>clock := 3, script := []\<rparr>, []) \<and>
   start (newDatabase ''mongodb://db'' ''health'' 10 None) conflictWorld =
     (Some IndexConflict, newDatabase ''mongodb://db'' ''health'' 10 None, conflictWorld, []) \<and>
   unassigned (newDatabase ''mongodb://db'' ''health'' 10 None)"
proof -
  let ?m = "newDatabase ''mongodb://db'' ''health'' 10 None"
  let ?d = "Database (Client ''mongodb://db'') ''health''"
  have c1: "Connect (WithTimeout Background (clock unreachableWorld) (mongoTimeout ?m))
              (mongoDBAuth ?m) unreachableWorld
            = (Inl (DriverError ''server selection error''),
               unreachableWorld\<lparr>clock := 3, script := []\<rparr>)"
    by (simp add: Connect_def roundTrip_def nextReply_def WithTimeout_def Background_def
        unreachableWorld_def freshWorld_def newDatabase_def)
  have c2: "Connect (WithTimeout Background (clock conflictWorld) (mongoTimeout ?m))
              (mongoDBAuth ?m) conflictWorld = (Inr (Client ''mongodb://db''), conflictWorld)"
    by (simp add: Connect_def roundTrip_def nextReply_def WithTimeout_def Background_def
        conflictWorld_def freshWorld_def newDatabase_def)
  have p2: "Ping (WithTimeout Background (clock conflictWorld) (mongoTimeout ?m))
              (Client ''mongodb://db'') conflictWorld = (None, conflictWorld)"
    by (simp add: Ping_def roundTrip_def nextReply_def WithTimeout_def Background_def
        conflictWorld_def freshWorld_def newDatabase_def)
  have pv: "provisioning (Database (Client ''mongodb://db'') (mongoDBName ?m)) =
              [(''configs'', applyConfigsChecks (wrapperOf ?d ''configs''))] @
              (''users'', applyUsersChecks (wrapperOf ?d ''users'')) # drop 2 (provisioning ?d)"
    by (simp add: provisioning_def newDatabase_def)
  have r1: "runChecks (map snd [(''configs'', applyConfigsChecks (wrapperOf ?d ''configs''))])
              conflictWorld = (None, conflictWorld)"
    by (simp add: applyConfigsChecks_def returnNil_def)
  have r2: "applyUsersChecks (wrapperOf ?d ''users'') conflictWorld = (Some IndexConflict, conflictWorld)"
    by (simp add: applyUsersChecks_def andThen_def AddIndex_def roundTrip_def nextReply_def
        wrapperOf_def conflictWorld_def freshWorld_def Let_def)
  have u: "unassigned ?m"
    by (simp add: unassigned_def collectionFields_def newDatabase_def)
  from start_failure_is_atomic [where m = ?m and w = unreachableWorld
      and ?e1.0 = "DriverError ''server selection error''"
      and ?w1.0 = "unreachableWorld\<lparr>clock := 3, script := []\<rparr>"] c1
  have s1: "start ?m unreachableWorld =
     (Some (DriverError ''server selection error''), ?m,
      unreachableWorld\<lparr>clock := 3, script := []\<rparr>, [])"
    by blast
  from start_failure_is_atomic [where m = ?m and w = conflictWorld
      and client = "Client ''mongodb://db''" and w1' = conflictWorld and w2' = conflictWorld
      and pre = "[(''configs'', applyConfigsChecks (wrapperOf ?d ''configs''))]"
      and name = "''users''" and chk = "applyUsersChecks (wrapperOf ?d ''users'')"
      and post = "drop 2 (provisioning ?d)" and ?w3.0 = conflictWorld
      and ?e3.0 = IndexConflict and ?w4.0 = conflictWorld] c2 p2 pv r1 r2
  have s2: "start ?m conflictWorld = (Some IndexConflict, ?m, conflictWorld, [])"
    by blast
  from s1 s2 u show ?thesis by simp
qed

section \<open>Connect and ping\<close>

lemma roundTrip_colls: "colls (snd (roundTrip c w)) = colls w"
  by (simp add: roundTrip_def nextReply_def Let_def split: list.splits option.splits)

lemma Connect_colls: "Connect c uri w = (r, w1) \<Longrightarrow> colls w1 = colls w"
  using roundTrip_colls [of c w]
  by (auto simp: Connect_def split: prod.splits option.splits)

lemma Ping_colls: "Ping c client w = (r, w1) \<Longrightarrow> colls w1 = colls w"
  using roundTrip_colls [of c w] by (simp add: Ping_def)

text \<open>
  Claim C7. Connect runs under the deadline (time of entry + \<open>mongoTimeout\<close>) and
  ping under the deadline (time at which connect returned + \<open>mongoTimeout\<close>): two
  replies that each arrive within \<open>mongoTimeout\<close> of the start of their own phase
  pass both phases, however long the two phases take together, and a reply that
  takes \<open>mongoTimeout\<close> or longer ends its phase with \<open>DeadlineExceeded\<close>. When
  connect or ping fails, \<^verbatim>\<open>start\<close> returns that error at once and the collections
  of the store are as they were.
\<close>

theorem start_deadlines_are_fresh:
  "(script w = r1 # r2 # rest \<and> failure r1 = None \<and> failure r2 = None \<and>
    int (latency r1) < mongoTimeout m \<and> int (latency r2) < mongoTimeout m \<longrightarrow>
      start m w =
        (case runChecks (map snd (provisioning (Database (Client (mongoDBAuth m)) (mongoDBName m))))
                (w\<lparr>script := rest, clock := clock w + int (latency r1) + int (latency r2)\<rparr>) of
           (Some e, w3) \<Rightarrow> (Some e, m, w3, [])
         | (None, w3) \<Rightarrow>
             (None, assembled m (Client (mongoDBAuth m)), w3,
              [\<lparr>task = Watch (Some (wrapperOf (Database (Client (mongoDBAuth m)) (mongoDBName m))
                                         ''configs'')),
                handleAtLaunch = assembled m (Client (mongoDBAuth m)), worldAtLaunch = w3\<rparr>]))) \<and>
   (script w = r1 # rest1 \<and> mongoTimeout m \<le> int (latency r1) \<longrightarrow>
      start m w =
        (Some DeadlineExceeded, m,
         w\<lparr>script := rest1, clock := max (clock w) (clock w + mongoTimeout m)\<rparr>, [])) \<and>
   (script w = r1 # r2 # rest \<and> failure r1 = None \<and>
    int (latency r1) < mongoTimeout m \<and> mongoTimeout m \<le> int (latency r2) \<longrightarrow>
      start m w =
        (Some DeadlineExceeded, m,
         w\<lparr>script := rest, clock := clock w + int (latency r1) + mongoTimeout m\<rparr>, [])) \<and>
   (Connect (WithTimeout Background (clock w) (mongoTimeout m)) (mongoDBAuth m) w = (Inl e1, w1) \<longrightarrow>
      start m w = (Some e1, m, w1, []) \<and> colls w1 = colls w) \<and>
   (Connect (WithTimeout Background (clock w) (mongoTimeout m)) (mongoDBAuth m) w = (Inr client, w1') \<and>
    Ping (WithTimeout Background (clock w1') (mongoTimeout m)) client w1' = (Some e2, w2) \<longrightarrow>
      start m w = (Some e2, m, w2, []) \<and> colls w2 = colls w)"
proof (intro conjI impI)
  assume "script w = r1 # r2 # rest \<and> failure r1 = None \<and> failure r2 = None \<and>
    int (latency r1) < mongoTimeout m \<and> int (latency r2) < mongoTimeout m"
  then show "start m w =
        (case runChecks (map snd (provisioning (Database (Client (mongoDBAuth m)) (mongoDBName m))))
                (w\<lparr>script := rest, clock := clock w + int (latency r1) + int (latency r2)\<rparr>) of
           (Some e, w3) \<Rightarrow> (Some e, m, w3, [])
         | (None, w3) \<Rightarrow>
             (None, assembled m (Client (mongoDBAuth m)), w3,
              [\<lparr>task = Watch (Some (wrapperOf (Database (Client (mongoDBAuth m)) (mongoDBName m))
                                         ''configs'')),
                handleAtLaunch = assembled m (Client (mongoDBAuth m)), worldAtLaunch = w3\<rparr>]))"
    by (simp add: start_eq Connect_def Ping_def roundTrip_def nextReply_def)
next
  assume "script w = r1 # rest1 \<and> mongoTimeout m \<le> int (latency r1)"
  then show "start m w =
        (Some DeadlineExceeded, m,
         w\<lparr>script := rest1, clock := max (clock w) (clock w + mongoTimeout m)\<rparr>, [])"
    by (simp add: start_eq Connect_def Ping_def roundTrip_def nextReply_def)
next
  assume "script w = r1 # r2 # rest \<and> failure r1 = None \<and>
    int (latency r1) < mongoTimeout m \<and> mongoTimeout m \<le> int (latency r2)"
  then show "start m w =
        (Some DeadlineExceeded, m,
         w\<lparr>script := rest, clock := clock w + int (latency r1) + mongoTimeout m\<rparr>, [])"
    by (simp add: start_eq Connect_def Ping_def roundTrip_def nextReply_def max_def)
next
  assume a: "Connect (WithTimeout Background (clock w) (mongoTimeout m)) (mongoDBAuth m) w = (Inl e1, w1)"
  then show "start m w = (Some e1, m, w1, [])"
    by (simp add: start_eq WithTimeout_def Background_def)
  from a show "colls w1 = colls w" by (rule Connect_colls)
next
  assume a: "Connect (WithTimeout Background (clock w) (mongoTimeout m)) (mongoDBAuth m) w = (Inr client, w1') \<and>
    Ping (WithTimeout Background (clock w1') (mongoTimeout m)) client w1' = (Some e2, w2)"
  then show "start m w = (Some e2, m, w2, [])"
    by (simp add: start_eq WithTimeout_def Background_def)
  from a have "colls w1' = colls w" "colls w2 = colls w1'"
    by (auto dest: Connect_colls Ping_colls)
  then show "colls w2 = colls w" by simp
qed

theorem start_deadlines_are_fresh_witness:
  "start (newDatabase ''mongodb://db'' ''health'' 10 None) slowConflictWorld =
     (Some IndexConflict, newDatabase ''mongodb://db'' ''health'' 10 None,
      conflictWorld\<lparr>clock := 12\<rparr>, []) \<and>
   start (newDatabase ''mongodb://db'' ''health'' 6 None) slowConflictWorld =
     (Some DeadlineExceeded, newDatabase ''mongodb://db'' ''health'' 6 None,
      conflictWorld\<lparr>clock := 6, script := [\<lparr>latency = 6, failure = None\<rparr>]\<rparr>, [])"
proof -
  let ?r = "\<lparr>latency = 6, failure = None\<rparr>"
  have s: "script slowConflictWorld = ?r # ?r # []"
    by (simp add: slowConflictWorld_def)
  from start_deadlines_are_fresh [where m = "newDatabase ''mongodb://db'' ''health'' 10 None"
      and w = slowConflictWorld and ?r1.0 = ?r and ?r2.0 = ?r and rest = "[]"] s
  have "start (newDatabase ''mongodb://db'' ''health'' 10 None) slowConflictWorld =
     (Some IndexConflict, newDatabase ''mongodb://db'' ''health'' 10 None,
      conflictWorld\<lparr>clock := 12\<rparr>, [])"
    by (simp add: newDatabase_def slowConflictWorld_def conflictWorld_def freshWorld_def
        provisioning_def applyConfigsChecks_def returnNil_def
        applyUsersChecks_def andThen_def AddIndex_def roundTrip_def nextReply_def
        wrapperOf_def Let_def)
  moreover
  from start_deadlines_are_fresh [where m = "newDatabase ''mongodb://db'' ''health'' 6 None"
      and w = slowConflictWorld and ?r1.0 = ?r and ?rest1.0 = "[?r]"] s
  have "start (newDatabase ''mongodb://db'' ''health'' 6 None) slowConflictWorld =
     (Some DeadlineExceeded, newDatabase ''mongodb://db'' ''health'' 6 None,
      conflictWorld\<lparr>clock := 6, script := [\<lparr>latency = 6, failure = None\<rparr>]\<rparr>, [])"
    by (simp add: newDatabase_def slowConflictWorld_def conflictWorld_def freshWorld_def)
  ultimately show ?thesis by simp
qed

section \<open>Success of start\<close>

lemmas check_defs =
  applyConfigsChecks_def applyUsersChecks_def applyProvidersChecks_def
  applyLocationsChecks_def applyCTestsChecks_def applyManualTestsChecks_def
  applyEManualTestsChecks_def applyResourcesChecks_def applyFAQChecks_def applyNewsChecks_def
  applyStatusChecks_def applyEStatusChecks_def applyHistoryChecks_def applyEHistoryChecks_def
  applyCountiesChecks_def applyTestTypesChecks_def applyRulesChecks_def
  applySymptomGroupsChecks_def applySymptomRulesChecks_def applySymptomsChecks_def
  applyCRulesChecks_def applyTraceExposuresChecks_def applyAccessRulesChecks_def
  applyUINOverridesChecks_def

lemmas driver_defs =
  andThen_def bindE_def returnNil_def returnErr_def Let_def
  AddIndex_def Find_def FindOne_def InsertOne_def DeleteMany_def ReadFile_def NewUUID_def
  roundTrip_def nextReply_def matches_def indexKey_def
  marshalSymptoms_def marshalCRules_def marshalSymptomGroup_def decodeCounty_def stringField_def

text \<open>On a store that holds a Champaign county, with both seed files, \<^verbatim>\<open>start\<close> succeeds.\<close>

lemma start_champaignWorld:
  "fst (start (newDatabase ''mongodb://db'' ''health'' 10 None) champaignWorld) = None"
  apply (simp add: start_eq)
  apply (simp add: Connect_def Ping_def roundTrip_def nextReply_def champaignWorld_def
      freshWorld_def newDatabase_def)
  apply (simp add: provisioning_def wrapperOf_def)
  apply (simp add: check_defs driver_defs emptyCollection_def seedFiles_def)
  done

lemma assembled_fields:
  "collectionNames (assembled m client) =
     [''configs'', ''users'', ''providers'', ''locations'', ''ctests'', ''emanualtests'',
      ''resources'', ''faq'', ''news'', ''estatus'', ''ehistory'', ''counties'', ''testtypes'',
      ''rules'', ''symptomgroups'', ''symptomrules'', ''symptoms'', ''crules'',
      ''traceexposures'', ''accessrules'', ''uinoverrides'']"
  "list_all (\<lambda>f. f \<noteq> None) (collectionFields (assembled m client))"
  "db (assembled m client) = Some (Database client (mongoDBName m))"
  "dbClient (assembled m client) = Some client"
  "configs (assembled m client) = Some (wrapperOf (Database client (mongoDBName m)) ''configs'')"
  by (simp_all add: assembled_def collectionNames_def collectionFields_def wrapperOf_def
      Let_def)

lemma start_success:
  assumes "start m w = (None, m', w', gs)"
  shows "\<exists>client w1 w2.
           Connect (WithTimeout Background (clock w) (mongoTimeout m)) (mongoDBAuth m) w = (Inr client, w1) \<and>
           Ping (WithTimeout Background (clock w1) (mongoTimeout m)) client w1 = (None, w2) \<and>
           runChecks (map snd (provisioning (Database client (mongoDBName m)))) w2 = (None, w') \<and>
           m' = assembled m client \<and>
           gs = [\<lparr>task = Watch (Some (wrapperOf (Database client (mongoDBName m)) ''configs'')),
                  handleAtLaunch = assembled m client, worldAtLaunch = w'\<rparr>]"
  using assms
  by (auto simp: start_eq WithTimeout_def Background_def split: prod.splits sum.splits option.splits)

text \<open>
  Claim C8. A successful execution of \<^verbatim>\<open>start\<close> makes exactly one launch, the
  watch, and the launch records the state in which the \<^verbatim>\<open>go\<close> statement was
  executed. The world at the launch is the world in which the last check of
  \<open>provisioning\<close> returned, after connect, ping and every check returned \<^verbatim>\<open>nil\<close>.
  The database object at the launch has \<open>db\<close>, \<open>dbClient\<close> and every collection
  field assigned, and the receiver of the watch is its \<open>configs\<close> field: every
  assignment precedes the launch. \<^verbatim>\<open>start\<close> then returns \<^verbatim>\<open>nil\<close> with the database
  object and the world of the launch: no step of the watch is a step of \<^verbatim>\<open>start\<close>.
  An execution that returns an error makes no launch.
\<close>

theorem start_launches_watch_last:
  "(start m w = (None, m', w', gs) \<longrightarrow>
      (\<exists>client w1 w2 l.
         Connect (WithTimeout Background (clock w) (mongoTimeout m)) (mongoDBAuth m) w = (Inr client, w1) \<and>
         Ping (WithTimeout Background (clock w1) (mongoTimeout m)) client w1 = (None, w2) \<and>
         runChecks (map snd (provisioning (Database client (mongoDBName m)))) w2
           = (None, worldAtLaunch l) \<and>
         gs = [l] \<and>
         task l = Watch (configs (handleAtLaunch l)) \<and>
         configs (handleAtLaunch l) = Some (wrapperOf (Database client (mongoDBName m)) ''configs'') \<and>
         db (handleAtLaunch l) \<noteq> None \<and> dbClient (handleAtLaunch l) \<noteq> None \<and>
         list_all (\<lambda>f. f \<noteq> None) (collectionFields (handleAtLaunch l)) \<and>
         m' = handleAtLaunch l \<and> w' = worldAtLaunch l)) \<and>
   (start m w = (r, m', w', gs) \<and> gs \<noteq> [] \<longrightarrow> r = None)"
proof (intro conjI impI)
  assume s: "start m w = (None, m', w', gs)"
  from start_success [OF s] obtain client w1 w2 where
    c: "Connect (WithTimeout Background (clock w) (mongoTimeout m)) (mongoDBAuth m) w = (Inr client, w1)"
    and p: "Ping (WithTimeout Background (clock w1) (mongoTimeout m)) client w1 = (None, w2)"
    and r: "runChecks (map snd (provisioning (Database client (mongoDBName m)))) w2 = (None, w')"
    and m': "m' = assembled m client"
    and gs: "gs = [\<lparr>task = Watch (Some (wrapperOf (Database client (mongoDBName m)) ''configs'')),
                    handleAtLaunch = assembled m client, worldAtLaunch = w'\<rparr>]"
    by blast
  let ?l = "\<lparr>task = Watch (Some (wrapperOf (Database client (mongoDBName m)) ''configs'')),
             handleAtLaunch = assembled m client, worldAtLaunch = w'\<rparr>"
  have a: "list_all (\<lambda>f. f \<noteq> None) (collectionFields (handleAtLaunch ?l))"
    using assembled_fields(2) [of m client] by (simp del: not_None_eq)
  have "Connect (WithTimeout Background (clock w) (mongoTimeout m)) (mongoDBAuth m) w = (Inr client, w1) \<and>
         Ping (WithTimeout Background (clock w1) (mongoTimeout m)) client w1 = (None, w2) \<and>
         runChecks (map snd (provisioning (Database client (mongoDBName m)))) w2
           = (None, worldAtLaunch ?l) \<and>
         gs = [?l] \<and>
         task ?l = Watch (configs (handleAtLaunch ?l)) \<and>
         configs (handleAtLaunch ?l) = Some (wrapperOf (Database client (mongoDBName m)) ''configs'') \<and>
         db (handleAtLaunch ?l) \<noteq> None \<and> dbClient (handleAtLaunch ?l) \<noteq> None \<and>
         list_all (\<lambda>f. f \<noteq> None) (collectionFields (handleAtLaunch ?l)) \<and>
         m' = handleAtLaunch ?l \<and> w' = worldAtLaunch ?l"
    using c p r m' gs a by (simp add: assembled_fields del: not_None_eq)
  then show "\<exists>client w1 w2 l.
         Connect (WithTimeout Background (clock w) (mongoTimeout m)) (mongoDBAuth m) w = (Inr client, w1) \<and>
         Ping (WithTimeout Background (clock w1) (mongoTimeout m)) client w1 = (None, w2) \<and>
         runChecks (map snd (provisioning (Database client (mongoDBName m)))) w2
           = (None, worldAtLaunch l) \<and>
         gs = [l] \<and>
         task l = Watch (configs (handleAtLaunch l)) \<and>
         configs (handleAtLaunch l) = Some (wrapperOf (Database client (mongoDBName m)) ''configs'') \<and>
         db (handleAtLaunch l) \<noteq> None \<and> dbClient (handleAtLaunch l) \<noteq> None \<and>
         list_all (\<lambda>f. f \<noteq> None) (collectionFields (handleAtLaunch l)) \<and>
         m' = handleAtLaunch l \<and> w' = worldAtLaunch l"
    by blast
next
  assume "start m w = (r, m', w', gs) \<and> gs \<noteq> []"
  then show "r = None"
    by (auto simp: start_eq split: prod.splits sum.splits option.splits)
qed

theorem start_launches_watch_last_witness:
  "map task (snd (snd (snd (start (newDatabase ''mongodb://db'' ''health'' 10 None) champaignWorld)))) =
     [Watch (Some (wrapperOf (Database (Client ''mongodb://db'') ''health'') ''configs''))] \<and>
   list_all (\<lambda>l. list_all (\<lambda>f. f \<noteq> None) (collectionFields (handleAtLaunch l)))
     (snd (snd (snd (start (newDatabase ''mongodb://db'' ''health'' 10 None) champaignWorld))))"
proof -
  let ?m = "newDatabase ''mongodb://db'' ''health'' 10 None"
  obtain m' w' gs where s: "start ?m champaignWorld = (None, m', w', gs)"
    using start_champaignWorld by (cases "start ?m champaignWorld") auto
  have c: "Connect (WithTimeout Background (clock champaignWorld) (mongoTimeout ?m)) (mongoDBAuth ?m)
             champaignWorld = (Inr (Client ''mongodb://db''), champaignWorld)"
    by (simp add: Connect_def roundTrip_def nextReply_def WithTimeout_def Background_def
        champaignWorld_def freshWorld_def newDatabase_def)
  from start_launches_watch_last [of ?m champaignWorld m' w' gs] s c
  obtain l where "gs = [l]"
    and "task l = Watch (Some (wrapperOf (Database (Client ''mongodb://db'') ''health'') ''configs''))"
    and "list_all (\<lambda>f. f \<noteq> None) (collectionFields (handleAtLaunch l))"
    by (auto simp: newDatabase_def simp del: not_None_eq)
  with s show ?thesis by (simp del: not_None_eq)
qed

section \<open>The fields of the assembled handle\<close>









section \<open>Which documents a check can change\<close>

lemma roundTrip_colls_eq: "roundTrip c w = (r, w') \<Longrightarrow> colls w' = colls w"
  using roundTrip_colls [of c w] by simp

lemma keepsDocs_docsOutside: "keepsDocs f \<Longrightarrow> docsOutside k f"
  by (simp add: keepsDocs_def docsOutside_def)

lemma keepsDocs_roundTrip: "keepsDocs (roundTrip c)"
  by (simp add: keepsDocs_def roundTrip_colls)

lemma keepsDocs_return: "keepsDocs returnNil" "keepsDocs (returnErr e)"
  by (simp_all add: keepsDocs_def returnNil_def returnErr_def)

lemma keepsDocs_AddIndex: "keepsDocs (AddIndex cw ks u)"
  by (auto simp: keepsDocs_def AddIndex_def Let_def split: prod.splits option.splits
      dest: roundTrip_colls_eq)

lemma keepsDocs_Find: "keepsDocs (Find cw flt)"
  by (auto simp: keepsDocs_def Find_def split: prod.splits option.splits
      dest: roundTrip_colls_eq)

lemma keepsDocs_FindOne: "keepsDocs (FindOne cw flt dec)"
  by (auto simp: keepsDocs_def FindOne_def split: prod.splits option.splits sum.splits
      dest: roundTrip_colls_eq)

lemma keepsDocs_ReadFile: "keepsDocs (ReadFile path)"
  by (simp add: keepsDocs_def ReadFile_def split: option.splits)

lemma keepsDocs_NewUUID: "keepsDocs NewUUID"
  by (simp add: keepsDocs_def NewUUID_def split: list.splits)

lemma docsOutside_InsertOne: "docsOutside (nsOf cw) (InsertOne cw d)"
  by (auto simp: docsOutside_def InsertOne_def Let_def simp del: nsOf.simps
      split: prod.splits option.splits dest: roundTrip_colls_eq)

lemma docsOutside_DeleteMany: "docsOutside (nsOf cw) (DeleteMany cw flt)"
  by (auto simp: docsOutside_def DeleteMany_def Let_def simp del: nsOf.simps
      split: prod.splits option.splits dest: roundTrip_colls_eq)

lemma keepsDocs_andThen: "keepsDocs f \<Longrightarrow> keepsDocs g \<Longrightarrow> keepsDocs (andThen f g)"
  unfolding keepsDocs_def andThen_def
  by (auto split: prod.splits option.splits) (metis snd_conv)+

lemma docsOutside_andThen: "docsOutside k f \<Longrightarrow> docsOutside k g \<Longrightarrow> docsOutside k (andThen f g)"
  unfolding docsOutside_def andThen_def
  by (auto split: prod.splits option.splits) (metis snd_conv)+

lemma keepsDocs_bindE: "keepsDocs f \<Longrightarrow> (\<And>v. keepsDocs (g v)) \<Longrightarrow> keepsDocs (bindE f g)"
  unfolding keepsDocs_def bindE_def
  by (auto split: prod.splits sum.splits) (metis snd_conv)+

lemma docsOutside_bindE:
  "docsOutside k f \<Longrightarrow> (\<And>v. docsOutside k (g v)) \<Longrightarrow> docsOutside k (bindE f g)"
  unfolding docsOutside_def bindE_def
  by (auto split: prod.splits sum.splits) (metis snd_conv)+

lemmas keepsDocs_intros =
  keepsDocs_andThen keepsDocs_bindE keepsDocs_return keepsDocs_AddIndex keepsDocs_Find
  keepsDocs_FindOne keepsDocs_ReadFile keepsDocs_NewUUID

lemma index_checks_keepDocs:
  "keepsDocs (applyConfigsChecks cw)" "keepsDocs (applyUsersChecks cw)"
  "keepsDocs (applyProvidersChecks cw)" "keepsDocs (applyLocationsChecks cw)"
  "keepsDocs (applyCTestsChecks cw)" "keepsDocs (applyManualTestsChecks cw)"
  "keepsDocs (applyResourcesChecks cw)" "keepsDocs (applyFAQChecks cw)"
  "keepsDocs (applyNewsChecks cw)" "keepsDocs (applyStatusChecks cw)"
  "keepsDocs (applyEStatusChecks cw)" "keepsDocs (applyHistoryChecks cw)"
  "keepsDocs (applyEHistoryChecks cw)" "keepsDocs (applyCountiesChecks cw)"
  "keepsDocs (applyTestTypesChecks cw)" "keepsDocs (applyRulesChecks cw)"
  "keepsDocs (applySymptomRulesChecks cw)" "keepsDocs (applyTraceExposuresChecks cw)"
  "keepsDocs (applyAccessRulesChecks cw)" "keepsDocs (applyUINOverridesChecks cw)"
  unfolding applyConfigsChecks_def applyUsersChecks_def applyProvidersChecks_def
    applyLocationsChecks_def applyCTestsChecks_def applyManualTestsChecks_def
    applyResourcesChecks_def applyFAQChecks_def applyNewsChecks_def applyStatusChecks_def
    applyEStatusChecks_def applyHistoryChecks_def applyEHistoryChecks_def applyCountiesChecks_def
    applyTestTypesChecks_def applyRulesChecks_def applySymptomRulesChecks_def
    applyTraceExposuresChecks_def applyAccessRulesChecks_def applyUINOverridesChecks_def
  by (intro keepsDocs_intros)+

lemmas docsOutside_intros =
  docsOutside_andThen docsOutside_bindE docsOutside_InsertOne docsOutside_DeleteMany
  keepsDocs_return [THEN keepsDocs_docsOutside] keepsDocs_AddIndex [THEN keepsDocs_docsOutside]
  keepsDocs_Find [THEN keepsDocs_docsOutside] keepsDocs_FindOne [THEN keepsDocs_docsOutside]
  keepsDocs_ReadFile [THEN keepsDocs_docsOutside] keepsDocs_NewUUID [THEN keepsDocs_docsOutside]

lemma applyEManualTestsChecks_docsOutside: "docsOutside (nsOf cw) (applyEManualTestsChecks cw)"
  unfolding applyEManualTestsChecks_def Let_def
  by (intro docsOutside_intros) (auto simp del: nsOf.simps split: option.splits intro!: docsOutside_intros)

lemma applySymptomGroupsChecks_docsOutside: "docsOutside (nsOf cw) (applySymptomGroupsChecks cw)"
  unfolding applySymptomGroupsChecks_def Let_def
  by (intro docsOutside_intros) (auto simp del: nsOf.simps intro!: docsOutside_intros)

lemma applySymptomsChecks_docsOutside: "docsOutside (nsOf cw) (applySymptomsChecks cw)"
  unfolding applySymptomsChecks_def Let_def
  by (intro docsOutside_intros) (auto simp del: nsOf.simps intro!: docsOutside_intros)

section \<open>Rule seeding needs the Champaign county\<close>

lemma runChecks_invariant:
  "(\<And>c w. c \<in> set cs \<Longrightarrow> P w \<Longrightarrow> P (snd (c w))) \<Longrightarrow> P w \<Longrightarrow> P (snd (runChecks cs w))"
proof (induction cs arbitrary: w)
  case Nil
  then show ?case by simp
next
  case (Cons c cs)
  have step: "P (snd (c w))" using Cons.prems by simp
  show ?case
  proof (cases "c w")
    case (Pair r w1)
    with step have "P w1" by simp
    with Cons show ?thesis using Pair by (cases r) auto
  qed
qed

lemma keepsDocsD:
  assumes "keepsDocs f" and "f w = (r, w')"
  shows "docs (colls w' ns) = docs (colls w ns)"
proof -
  from assms(1) have "docs (colls (snd (f w)) ns) = docs (colls w ns)"
    unfolding keepsDocs_def by blast
  with assms(2) show ?thesis by simp
qed

lemma applyCRulesChecks_without_champaign:
  assumes "\<not> hasChampaign (colls w (nsOf counties'))"
  shows "\<exists>e w'. applyCRulesChecks cRules counties' w = (Some e, w') \<and>
           (\<forall>ns. docs (colls w' ns) = docs (colls w ns))"
proof -
  let ?chFilter = "[(''name'', BString ''Champaign'')]"
  obtain r1 w1 where a1: "AddIndex cRules [(''app_version'', 1)] False w = (r1, w1)"
    by (cases "AddIndex cRules [(''app_version'', 1)] False w")
  obtain r2 w2 where a2: "AddIndex cRules [(''county_id'', 1)] False w1 = (r2, w2)"
    by (cases "AddIndex cRules [(''county_id'', 1)] False w1")
  obtain r3 w3 where a3: "FindOne counties' ?chFilter decodeCounty w2 = (r3, w3)"
    by (cases "FindOne counties' ?chFilter decodeCounty w2")
  have d1: "\<And>ns. docs (colls w1 ns) = docs (colls w ns)"
    using keepsDocs_AddIndex a1 by (rule keepsDocsD)
  have d2: "\<And>ns. docs (colls w2 ns) = docs (colls w1 ns)"
    using keepsDocs_AddIndex a2 by (rule keepsDocsD)
  have d3: "\<And>ns. docs (colls w3 ns) = docs (colls w2 ns)"
    using keepsDocs_FindOne a3 by (rule keepsDocsD)
  have none: "find (matches ?chFilter) (docs (colls w2 (nsOf counties'))) = None"
    using assms by (simp add: hasChampaign_def d1 d2 find_None_iff list_ex_iff del: nsOf.simps)
  have r3: "r3 = Inr None \<or> (\<exists>e. r3 = Inl e)"
  proof (cases "roundTrip None w2")
    case (Pair rr ww)
    have "colls ww = colls w2" using Pair by (rule roundTrip_colls_eq)
    with a3 none Pair show ?thesis
      by (cases rr) (auto simp: FindOne_def simp del: nsOf.simps)
  qed
  show ?thesis
  proof (cases r1)
    case (Some e)
    with a1 d1 show ?thesis by (simp add: applyCRulesChecks_def andThen_def)
  next
    case n1: None
    show ?thesis
    proof (cases r2)
      case (Some e)
      with a1 a2 n1 d1 d2 show ?thesis by (simp add: applyCRulesChecks_def andThen_def)
    next
      case n2: None
      from r3 a1 a2 a3 n1 n2 d1 d2 d3 show ?thesis
        by (auto simp: applyCRulesChecks_def andThen_def bindE_def returnErr_def Let_def)
    qed
  qed
qed

lemma before_crules_docs:
  assumes "c \<in> set (map snd (take 20 (provisioning (Database client dbn))))"
  shows "docs (colls (snd (c w)) (dbn, ''crules'')) = docs (colls w (dbn, ''crules'')) \<and>
         docs (colls (snd (c w)) (dbn, ''counties'')) = docs (colls w (dbn, ''counties''))"
proof -
  let ?d = "Database client dbn"
  have ns: "\<And>n. nsOf (wrapperOf ?d n) = (dbn, n)" by (simp add: wrapperOf_def)
  from assms consider
    (idx) "keepsDocs c"
    | (ema) "c = applyEManualTestsChecks (wrapperOf ?d ''emanualtests'')"
    | (sgr) "c = applySymptomGroupsChecks (wrapperOf ?d ''symptomgroups'')"
    | (sym) "c = applySymptomsChecks (wrapperOf ?d ''symptoms'')"
    by (auto simp: provisioning_def index_checks_keepDocs)
  then show ?thesis
  proof cases
    case idx
    then show ?thesis by (simp add: keepsDocs_def)
  next
    case ema
    with applyEManualTestsChecks_docsOutside [of "wrapperOf ?d ''emanualtests''"]
    show ?thesis by (simp add: docsOutside_def ns del: nsOf.simps)
  next
    case sgr
    with applySymptomGroupsChecks_docsOutside [of "wrapperOf ?d ''symptomgroups''"]
    show ?thesis by (simp add: docsOutside_def ns del: nsOf.simps)
  next
    case sym
    with applySymptomsChecks_docsOutside [of "wrapperOf ?d ''symptoms''"]
    show ?thesis by (simp add: docsOutside_def ns del: nsOf.simps)
  qed
qed

lemma provisioning_crules:
  "provisioning d = take 20 (provisioning d) @
     (''crules'', applyCRulesChecks (wrapperOf d ''crules'') (wrapperOf d ''counties'')) #
     drop 21 (provisioning d)"
  by (simp add: provisioning_def)

text \<open>
  Claim C3. When the counties collection holds no document named "Champaign",
  \<^verbatim>\<open>applyCRulesChecks\<close> returns an error and the documents of every collection, those
  of crules among them, are as before; and \<^verbatim>\<open>start\<close> on a store whose counties
  collection holds no such document returns an error, leaves the handle as it was,
  launches nothing, and leaves the documents of crules as they were.
\<close>

theorem crules_seeding_needs_champaign:
  "(\<not> hasChampaign (colls w (nsOf counties')) \<longrightarrow>
      (\<exists>e w'. applyCRulesChecks cRules counties' w = (Some e, w') \<and>
         (\<forall>ns. docs (colls w' ns) = docs (colls w ns)))) \<and>
   (\<not> hasChampaign (colls w (mongoDBName m, ''counties'')) \<longrightarrow>
      (\<exists>e w'. start m w = (Some e, m, w', []) \<and>
         docs (colls w' (mongoDBName m, ''crules'')) = docs (colls w (mongoDBName m, ''crules''))))"
proof (intro conjI impI)
  assume "\<not> hasChampaign (colls w (nsOf counties'))"
  then show "\<exists>e w'. applyCRulesChecks cRules counties' w = (Some e, w') \<and>
         (\<forall>ns. docs (colls w' ns) = docs (colls w ns))"
    by (rule applyCRulesChecks_without_champaign)
next
  assume nc: "\<not> hasChampaign (colls w (mongoDBName m, ''counties''))"
  let ?dbn = "mongoDBName m"
  let ?P = "\<lambda>v::world. docs (colls v (?dbn, ''crules'')) = docs (colls w (?dbn, ''crules'')) \<and>
                 docs (colls v (?dbn, ''counties'')) = docs (colls w (?dbn, ''counties''))"
  show "\<exists>e w'. start m w = (Some e, m, w', []) \<and>
         docs (colls w' (?dbn, ''crules'')) = docs (colls w (?dbn, ''crules''))"
  proof (cases "Connect (Some (clock w + mongoTimeout m)) (mongoDBAuth m) w")
    case c: (Pair rc w1)
    have k1: "colls w1 = colls w" using c by (rule Connect_colls)
    show ?thesis
    proof (cases rc)
      case (Inl e)
      with c k1 show ?thesis by (simp add: start_eq)
    next
      case (Inr client)
      let ?d = "Database client ?dbn"
      show ?thesis
      proof (cases "Ping (Some (clock w1 + mongoTimeout m)) client w1")
        case p: (Pair rp w2)
        have k2: "colls w2 = colls w" using p k1 by (simp add: Ping_colls)
        show ?thesis
        proof (cases rp)
          case (Some e)
          with c Inr p k2 show ?thesis by (simp add: start_eq)
        next
          case None
          have P2: "?P w2" using k2 by simp
          obtain r3 w3 where pre: "runChecks (map snd (take 20 (provisioning ?d))) w2 = (r3, w3)"
            by (cases "runChecks (map snd (take 20 (provisioning ?d))) w2")
          have "?P (snd (runChecks (map snd (take 20 (provisioning ?d))) w2))"
          proof (rule runChecks_invariant [where P = ?P])
            fix c v
            assume "c \<in> set (map snd (take 20 (provisioning ?d)))" and "?P v"
            with before_crules_docs [of c client ?dbn v] show "?P (snd (c v))" by simp
          qed (rule P2)
          with pre have P3: "?P w3" by simp
          have split: "runChecks (map snd (provisioning ?d)) w2 =
              (case runChecks (map snd (take 20 (provisioning ?d))) w2 of
                 (Some e, v) \<Rightarrow> (Some e, v)
               | (None, v) \<Rightarrow>
                   runChecks (applyCRulesChecks (wrapperOf ?d ''crules'') (wrapperOf ?d ''counties'') #
                              map snd (drop 21 (provisioning ?d))) v)"
            by (subst provisioning_crules) (simp add: runChecks_append del: runChecks.simps)
          show ?thesis
          proof (cases r3)
            case (Some e)
            with pre split have "runChecks (map snd (provisioning ?d)) w2 = (Some e, w3)" by simp
            with c Inr p None P3 show ?thesis by (simp add: start_eq)
          next
            case n3: None
            have "\<not> hasChampaign (colls w3 (nsOf (wrapperOf ?d ''counties'')))"
              using nc P3 by (simp add: hasChampaign_def wrapperOf_def)
            from applyCRulesChecks_without_champaign [OF this, of "wrapperOf ?d ''crules''"]
            obtain e w4 where
              f: "applyCRulesChecks (wrapperOf ?d ''crules'') (wrapperOf ?d ''counties'') w3 = (Some e, w4)"
              and d4: "\<And>ns. docs (colls w4 ns) = docs (colls w3 ns)"
              by blast
            from pre split n3 f have "runChecks (map snd (provisioning ?d)) w2 = (Some e, w4)"
              by simp
            with c Inr p None P3 d4 show ?thesis by (simp add: start_eq)
          qed
        qed
      qed
    qed
  qed
qed

theorem crules_seeding_needs_champaign_witness:
  "applyCRulesChecks (wrapperOf (Database (Client ''mongodb://db'') ''health'') ''crules'')
     (wrapperOf (Database (Client ''mongodb://db'') ''health'') ''counties'')
     (freshWorld seedFiles []) \<noteq>
   (None, snd (applyCRulesChecks (wrapperOf (Database (Client ''mongodb://db'') ''health'') ''crules'')
     (wrapperOf (Database (Client ''mongodb://db'') ''health'') ''counties'')
     (freshWorld seedFiles []))) \<and>
   fst (start (newDatabase ''mongodb://db'' ''health'' 10 None) (freshWorld seedFiles [])) \<noteq> None"
proof -
  let ?d = "Database (Client ''mongodb://db'') ''health''"
  let ?m = "newDatabase ''mongodb://db'' ''health'' 10 None"
  have h1: "\<not> hasChampaign (colls (freshWorld seedFiles []) (nsOf (wrapperOf ?d ''counties'')))"
    by (simp add: hasChampaign_def freshWorld_def emptyCollection_def)
  have h2: "\<not> hasChampaign (colls (freshWorld seedFiles []) (mongoDBName ?m, ''counties''))"
    by (simp add: hasChampaign_def freshWorld_def emptyCollection_def)
  from crules_seeding_needs_champaign [of "freshWorld seedFiles []" "wrapperOf ?d ''counties''"
      "wrapperOf ?d ''crules''" ?m] h1 h2
  show ?thesis by auto
qed

section \<open>Pruning of verified manual tests\<close>

lemma Find_result:
  assumes "Find cw flt w = (Inr items, w')"
  shows "items = filter (matches flt) (docs (colls w (nsOf cw)))" and "colls w' = colls w"
  using assms
  by (auto simp: Find_def simp del: nsOf.simps split: prod.splits option.splits
      dest: roundTrip_colls_eq)

lemma DeleteMany_result:
  assumes "DeleteMany cw flt w = (Inr r, w')"
  shows "docs (colls w' (nsOf cw)) = filter (\<lambda>d. \<not> matches flt d) (docs (colls w (nsOf cw)))"
  using assms
  by (auto simp: DeleteMany_def Let_def simp del: nsOf.simps split: prod.splits option.splits
      dest: roundTrip_colls_eq)

lemma applyEManualTestsChecks_success:
  assumes "applyEManualTestsChecks cw w = (None, w')"
  shows "docs (colls w' (nsOf cw)) = filter (\<lambda>d. \<not> isVerified d) (docs (colls w (nsOf cw)))"
proof -
  let ?vf = "[(''status'', BString ''verified'')]"
  from assms obtain w1 w2 w3 w4 items w5 where
    a: "AddIndex cw [(''user_id'', 1)] False w = (None, w1)"
       "AddIndex cw [(''location_id'', 1)] False w1 = (None, w2)"
       "AddIndex cw [(''county_id'', 1)] False w2 = (None, w3)"
       "AddIndex cw [(''status'', 1)] False w3 = (None, w4)"
    and f: "Find cw ?vf w4 = (Inr items, w5)"
    and rest: "(if items \<noteq> [] \<and> 0 < length items
                then bindE (DeleteMany cw ?vf) (\<lambda>result.
                       case result of
                         None \<Rightarrow> returnErr (ErrorsNew ''delete result is nil for some reasons'')
                       | Some deleted \<Rightarrow> returnNil)
                else returnNil) w5 = (None, w')"
    by (auto simp: applyEManualTestsChecks_def andThen_def bindE_def Let_def simp del: nsOf.simps
        split: prod.splits option.splits sum.splits)
  have d4: "docs (colls w4 (nsOf cw)) = docs (colls w (nsOf cw))"
    using a by (simp add: keepsDocsD [OF keepsDocs_AddIndex] del: nsOf.simps)
  from Find_result [OF f] d4
  have items: "items = filter isVerified (docs (colls w (nsOf cw)))"
    and d5: "docs (colls w5 (nsOf cw)) = docs (colls w (nsOf cw))"
    by (simp_all add: isVerified_def [abs_def] del: nsOf.simps)
  show ?thesis
  proof (cases "items = []")
    case True
    with rest have "w' = w5" by (simp add: returnNil_def)
    moreover from True items have "filter (\<lambda>d. \<not> isVerified d) (docs (colls w (nsOf cw)))
        = docs (colls w (nsOf cw))"
      by (simp add: filter_empty_conv filter_id_conv del: nsOf.simps)
    ultimately show ?thesis using d5 by (simp del: nsOf.simps)
  next
    case False
    with rest obtain r where "DeleteMany cw ?vf w5 = (Inr r, w')"
      by (auto simp: bindE_def returnErr_def returnNil_def simp del: nsOf.simps
          split: prod.splits sum.splits option.splits)
    from DeleteMany_result [OF this] d5 show ?thesis
      by (simp add: isVerified_def [abs_def] del: nsOf.simps)
  qed
qed

lemma andThen_inv:
  assumes "\<And>v. P v \<Longrightarrow> P (snd (f v))" and "\<And>v. P v \<Longrightarrow> P (snd (g v))" and "P u"
  shows "P (snd (andThen f g u))"
proof (cases "f u")
  case (Pair r v)
  with assms(1) [OF assms(3)] have "P v" by simp
  with Pair assms(2) show ?thesis by (cases r) (simp_all add: andThen_def)
qed

lemma bindE_inv:
  assumes "\<And>v. P v \<Longrightarrow> P (snd (f v))"
    and "\<And>x v v'. P v \<Longrightarrow> f v = (Inr x, v') \<Longrightarrow> P (snd (g x v'))" and "P u"
  shows "P (snd (bindE f g u))"
proof (cases "f u")
  case (Pair r v)
  with assms(1) [OF assms(3)] have "P v" by simp
  with Pair assms(2) [OF assms(3)] show ?thesis by (cases r) (simp_all add: bindE_def)
qed

lemma keepsDocs_inv:
  assumes "keepsDocs f" and "\<forall>ns. docs (colls v ns) = docs (colls w ns)"
  shows "\<forall>ns. docs (colls (snd (f v)) ns) = docs (colls w ns)"
  using assms unfolding keepsDocs_def by simp

lemma applyEManualTestsChecks_nothing_to_prune:
  assumes "\<not> list_ex isVerified (docs (colls w (nsOf cw)))"
  shows "\<forall>ns. docs (colls (snd (applyEManualTestsChecks cw w)) ns) = docs (colls w ns)"
proof -
  let ?vf = "[(''status'', BString ''verified'')]"
  let ?P = "\<lambda>v::world. \<forall>ns. docs (colls v ns) = docs (colls w ns)"
  have pruning: "?P (snd (bindE (Find cw ?vf) (\<lambda>items.
          if items \<noteq> [] \<and> 0 < length items then
            bindE (DeleteMany cw ?vf) (\<lambda>result.
              case result of
                None \<Rightarrow> returnErr (ErrorsNew ''delete result is nil for some reasons'')
              | Some deleted \<Rightarrow> returnNil)
          else returnNil) v))" if v: "?P v" for v
  proof (rule bindE_inv [where P = ?P])
    fix u assume "?P u"
    with keepsDocs_Find show "?P (snd (Find cw ?vf u))" by (rule keepsDocs_inv)
  next
    fix items u u'
    assume u: "?P u" and f: "Find cw ?vf u = (Inr items, u')"
    from Find_result [OF f] u assms have "items = []" and "?P u'"
      by (simp_all add: isVerified_def [abs_def] list_ex_iff filter_empty_conv del: nsOf.simps)
    then show "?P (snd ((if items \<noteq> [] \<and> 0 < length items then
            bindE (DeleteMany cw ?vf) (\<lambda>result.
              case result of
                None \<Rightarrow> returnErr (ErrorsNew ''delete result is nil for some reasons'')
              | Some deleted \<Rightarrow> returnNil)
          else returnNil) u'))"
      by (simp add: returnNil_def)
  qed (rule v)
  have idx: "?P (snd (AddIndex cw ks uq v))" if "?P v" for ks uq v
    using keepsDocs_AddIndex that by (rule keepsDocs_inv)
  show ?thesis
    unfolding applyEManualTestsChecks_def Let_def
    by (intro andThen_inv [where P = ?P] idx pruning) simp_all
qed

text \<open>
  Claim C5. When \<^verbatim>\<open>applyEManualTestsChecks\<close> returns \<^verbatim>\<open>nil\<close>, the documents of the
  collection are the documents it held before whose status is not "verified", in
  their order and unchanged, so none with status "verified" is left, and no other
  collection has lost or gained a document. When no document matches the verified
  filter, the routine changes no document whatever it returns, and the pruning
  step returns \<^verbatim>\<open>nil\<close>: once the four index calls and the query have succeeded the
  routine returns \<^verbatim>\<open>nil\<close> without a call of \<^verbatim>\<open>DeleteMany\<close>. A second run after a
  successful one changes no document.
\<close>

theorem pruning_removes_exactly_verified:
  "(applyEManualTestsChecks cw w = (None, w') \<longrightarrow>
      docs (colls w' (nsOf cw)) = filter (\<lambda>d. \<not> isVerified d) (docs (colls w (nsOf cw))) \<and>
      \<not> list_ex isVerified (docs (colls w' (nsOf cw))) \<and>
      (\<forall>ns. ns \<noteq> nsOf cw \<longrightarrow> docs (colls w' ns) = docs (colls w ns)) \<and>
      (\<forall>ns. docs (colls (snd (applyEManualTestsChecks cw w')) ns) = docs (colls w' ns))) \<and>
   (\<not> list_ex isVerified (docs (colls w (nsOf cw))) \<longrightarrow>
      (\<forall>ns. docs (colls (snd (applyEManualTestsChecks cw w)) ns) = docs (colls w ns))) \<and>
   (\<not> list_ex isVerified (docs (colls w (nsOf cw))) \<and>
    AddIndex cw [(''user_id'', 1)] False w = (None, w1) \<and>
    AddIndex cw [(''location_id'', 1)] False w1 = (None, w2) \<and>
    AddIndex cw [(''county_id'', 1)] False w2 = (None, w3) \<and>
    AddIndex cw [(''status'', 1)] False w3 = (None, w4) \<and>
    Find cw [(''status'', BString ''verified'')] w4 = (Inr items, w5) \<longrightarrow>
      items = [] \<and> applyEManualTestsChecks cw w = (None, w5) \<and> colls w5 = colls w4)"
proof (intro conjI impI)
  assume s: "applyEManualTestsChecks cw w = (None, w')"
  from applyEManualTestsChecks_success [OF s]
  show d: "docs (colls w' (nsOf cw)) = filter (\<lambda>d. \<not> isVerified d) (docs (colls w (nsOf cw)))" .
  then show nv: "\<not> list_ex isVerified (docs (colls w' (nsOf cw)))"
    by (simp add: list_ex_iff del: nsOf.simps)
  from applyEManualTestsChecks_docsOutside [of cw] s
  show "\<forall>ns. ns \<noteq> nsOf cw \<longrightarrow> docs (colls w' ns) = docs (colls w ns)"
    unfolding docsOutside_def by (metis snd_conv)
  from nv show "\<forall>ns. docs (colls (snd (applyEManualTestsChecks cw w')) ns) = docs (colls w' ns)"
    by (rule applyEManualTestsChecks_nothing_to_prune)
next
  assume "\<not> list_ex isVerified (docs (colls w (nsOf cw)))"
  then show "\<forall>ns. docs (colls (snd (applyEManualTestsChecks cw w)) ns) = docs (colls w ns)"
    by (rule applyEManualTestsChecks_nothing_to_prune)
next
  assume a: "\<not> list_ex isVerified (docs (colls w (nsOf cw))) \<and>
    AddIndex cw [(''user_id'', 1)] False w = (None, w1) \<and>
    AddIndex cw [(''location_id'', 1)] False w1 = (None, w2) \<and>
    AddIndex cw [(''county_id'', 1)] False w2 = (None, w3) \<and>
    AddIndex cw [(''status'', 1)] False w3 = (None, w4) \<and>
    Find cw [(''status'', BString ''verified'')] w4 = (Inr items, w5)"
  then have i1: "AddIndex cw [(''user_id'', 1)] False w = (None, w1)"
    and i2: "AddIndex cw [(''location_id'', 1)] False w1 = (None, w2)"
    and i3: "AddIndex cw [(''county_id'', 1)] False w2 = (None, w3)"
    and i4: "AddIndex cw [(''status'', 1)] False w3 = (None, w4)"
    by simp_all
  have d4: "docs (colls w4 (nsOf cw)) = docs (colls w (nsOf cw))"
    using keepsDocsD [OF keepsDocs_AddIndex i1] keepsDocsD [OF keepsDocs_AddIndex i2]
      keepsDocsD [OF keepsDocs_AddIndex i3] keepsDocsD [OF keepsDocs_AddIndex i4]
    by (simp del: nsOf.simps)
  from a have f: "Find cw [(''status'', BString ''verified'')] w4 = (Inr items, w5)" by simp
  from Find_result [OF f] d4 a show i: "items = []" and "colls w5 = colls w4"
    by (simp_all add: isVerified_def [abs_def] list_ex_iff filter_empty_conv del: nsOf.simps)
  from a i show "applyEManualTestsChecks cw w = (None, w5)"
    by (simp add: applyEManualTestsChecks_def andThen_def bindE_def returnNil_def Let_def
        del: nsOf.simps)
qed

theorem pruning_removes_exactly_verified_witness:
  "docs (colls (snd (applyEManualTestsChecks
       (wrapperOf (Database (Client ''mongodb://db'') ''health'') ''emanualtests'') manualTestsWorld))
     (''health'', ''emanualtests'')) =
     [[(''_id'', BString ''t2''), (''status'', BString ''unverified'')],
      [(''_id'', BString ''t4''), (''status'', BString ''rejected'')]] \<and>
   applyEManualTestsChecks (wrapperOf (Database (Client ''mongodb://db'') ''health'') ''emanualtests'')
     (freshWorld seedFiles []) =
     (None, (freshWorld seedFiles [])
        \<lparr>colls := (\<lambda>ns. emptyCollection)
           ((''health'', ''emanualtests'') :=
              \<lparr>docs = [],
               indexes = [\<lparr>keys = [(''user_id'', 1)], unique = False\<rparr>,
                          \<lparr>keys = [(''location_id'', 1)], unique = False\<rparr>,
                          \<lparr>keys = [(''county_id'', 1)], unique = False\<rparr>,
                          \<lparr>keys = [(''status'', 1)], unique = False\<rparr>]\<rparr>)\<rparr>)"
proof -
  let ?cw = "wrapperOf (Database (Client ''mongodb://db'') ''health'') ''emanualtests''"
  let ?w = "freshWorld seedFiles []"
  let ?i = "\<lambda>k. \<lparr>keys = [(k, 1::int)], unique = False\<rparr>"
  let ?w1 = "?w\<lparr>colls := (\<lambda>ns. emptyCollection)((''health'', ''emanualtests'') :=
               \<lparr>docs = [], indexes = [?i ''user_id'']\<rparr>)\<rparr>"
  let ?w2 = "?w\<lparr>colls := (\<lambda>ns. emptyCollection)((''health'', ''emanualtests'') :=
               \<lparr>docs = [], indexes = [?i ''user_id'', ?i ''location_id'']\<rparr>)\<rparr>"
  let ?w3 = "?w\<lparr>colls := (\<lambda>ns. emptyCollection)((''health'', ''emanualtests'') :=
               \<lparr>docs = [], indexes = [?i ''user_id'', ?i ''location_id'', ?i ''county_id'']\<rparr>)\<rparr>"
  let ?w4 = "?w\<lparr>colls := (\<lambda>ns. emptyCollection)((''health'', ''emanualtests'') :=
               \<lparr>docs = [], indexes = [?i ''user_id'', ?i ''location_id'', ?i ''county_id'',
                                       ?i ''status'']\<rparr>)\<rparr>"
  have ok: "fst (applyEManualTestsChecks ?cw manualTestsWorld) = None"
    by (simp add: applyEManualTestsChecks_def driver_defs wrapperOf_def manualTestsWorld_def
        freshWorld_def emptyCollection_def)
  then obtain w' where s: "applyEManualTestsChecks ?cw manualTestsWorld = (None, w')"
    by (cases "applyEManualTestsChecks ?cw manualTestsWorld") auto
  have n: "nsOf ?cw = (''health'', ''emanualtests'')" by (simp add: wrapperOf_def)
  from pruning_removes_exactly_verified [of ?cw manualTestsWorld w'] s
  have "docs (colls w' (nsOf ?cw)) =
          filter (\<lambda>d. \<not> isVerified d) (docs (colls manualTestsWorld (nsOf ?cw)))"
    by blast
  then have first: "docs (colls w' (''health'', ''emanualtests'')) =
     [[(''_id'', BString ''t2''), (''status'', BString ''unverified'')],
      [(''_id'', BString ''t4''), (''status'', BString ''rejected'')]]"
    unfolding n by (simp add: manualTestsWorld_def isVerified_def matches_def)
  have h: "\<not> list_ex isVerified (docs (colls ?w (nsOf ?cw)))"
    "AddIndex ?cw [(''user_id'', 1)] False ?w = (None, ?w1)"
    "AddIndex ?cw [(''location_id'', 1)] False ?w1 = (None, ?w2)"
    "AddIndex ?cw [(''county_id'', 1)] False ?w2 = (None, ?w3)"
    "AddIndex ?cw [(''status'', 1)] False ?w3 = (None, ?w4)"
    "Find ?cw [(''status'', BString ''verified'')] ?w4 = (Inr [], ?w4)"
    by (simp_all add: AddIndex_def Find_def roundTrip_def nextReply_def Let_def wrapperOf_def
        freshWorld_def emptyCollection_def)
  from pruning_removes_exactly_verified [of ?cw ?w _ ?w1 ?w2 ?w3 ?w4 "[]" ?w4] h
  have second: "applyEManualTestsChecks ?cw ?w = (None, ?w4)"
    by blast
  from first second s show ?thesis by simp
qed

section \<open>Seeding of the symptoms\<close>

lemma roundTrip_quiet: "script w = [] \<Longrightarrow> roundTrip None w = (None, w)"
  by (simp add: roundTrip_def nextReply_def)

lemma AddIndex_quiet:
  assumes "script w = []" and "AddIndex cw ks u w = (r, w')"
  shows "script w' = []" and "r \<noteq> None \<Longrightarrow> w' = w"
    and "r = None \<Longrightarrow> AddIndex cw ks u w' = (None, w')"
  using assms
  by (auto simp: AddIndex_def roundTrip_quiet Let_def simp del: nsOf.simps split: if_splits)

lemma seeding_quiet_failure:
  assumes "script w = []"
    and "bindE (Find sw flt) (\<lambda>items.
           if length items \<le> 0 then
             bindE (ReadFile path) (\<lambda>data. andThen (InsertOne sw (mk data)) returnNil)
           else returnNil) w = (Some e, w1)"
  shows "w1 = w"
  using assms
  by (auto simp: bindE_def andThen_def returnNil_def Find_def ReadFile_def InsertOne_def
      roundTrip_quiet Let_def simp del: nsOf.simps split: if_splits option.splits)

lemma quiet_repeat_failure:
  assumes q: "script w = []" and f: "applySymptomsChecks sw w = (Some e, w1)"
  shows "applySymptomsChecks sw w1 = (Some e, w1)"
proof -
  let ?A = "AddIndex sw [(''app_version'', 1)] False"
  let ?R = "bindE (Find sw [(''app_version'', BString ''2.6'')]) (\<lambda>items.
           if length items \<le> 0 then
             bindE (ReadFile ''./driven/storage/symptoms_2.6.json'')
               (\<lambda>data. andThen (InsertOne sw (marshalSymptoms ''2.6'' data)) returnNil)
           else returnNil)"
  have run: "applySymptomsChecks sw = andThen ?A ?R"
    by (simp add: applySymptomsChecks_def Let_def)
  obtain ra wa where a: "?A w = (ra, wa)" by (cases "?A w")
  note qa = AddIndex_quiet [OF q a]
  show ?thesis
  proof (cases ra)
    case (Some e')
    with a f qa(2) have "w1 = w" by (simp add: run andThen_def)
    with f show ?thesis by simp
  next
    case None
    with a f have r: "?R wa = (Some e, w1)" by (simp add: run andThen_def)
    from seeding_quiet_failure [OF qa(1) r] have "w1 = wa" .
    with r qa(3) [OF None] show ?thesis by (simp add: run andThen_def)
  qed
qed

lemma Find_nonempty_keeps:
  assumes "symptoms26 (colls w (nsOf sw)) \<noteq> []"
  shows "\<forall>ns. docs (colls (snd (applySymptomsChecks sw w)) ns) = docs (colls w ns)"
proof -
  let ?flt = "[(''app_version'', BString ''2.6'')]"
  let ?P = "\<lambda>v::world. \<forall>ns. docs (colls v ns) = docs (colls w ns)"
  have seeding: "?P (snd (bindE (Find sw ?flt) (\<lambda>items.
           if length items \<le> 0 then
             bindE (ReadFile ''./driven/storage/symptoms_2.6.json'')
               (\<lambda>data. andThen (InsertOne sw (marshalSymptoms ''2.6'' data)) returnNil)
           else returnNil) v))" if v: "?P v" for v
  proof (rule bindE_inv [where P = ?P])
    fix u assume "?P u"
    with keepsDocs_Find show "?P (snd (Find sw ?flt u))" by (rule keepsDocs_inv)
  next
    fix items u u'
    assume u: "?P u" and f: "Find sw ?flt u = (Inr items, u')"
    from Find_result [OF f] u assms have "items \<noteq> []" and "?P u'"
      by (simp_all add: symptoms26_def del: nsOf.simps)
    then show "?P (snd ((if length items \<le> 0 then
             bindE (ReadFile ''./driven/storage/symptoms_2.6.json'')
               (\<lambda>data. andThen (InsertOne sw (marshalSymptoms ''2.6'' data)) returnNil)
           else returnNil) u'))"
      by (simp add: returnNil_def)
  qed (rule v)
  have idx: "?P (snd (AddIndex sw ks uq v))" if "?P v" for ks uq v
    using keepsDocs_AddIndex that by (rule keepsDocs_inv)
  show ?thesis
    unfolding applySymptomsChecks_def Let_def
    by (intro andThen_inv [where P = ?P] idx seeding) simp_all
qed

lemma InsertOne_result:
  assumes "InsertOne cw d w = (None, w')"
  shows "docs (colls w' (nsOf cw)) = docs (colls w (nsOf cw)) @ [d]"
  using assms
  by (auto simp: InsertOne_def Let_def simp del: nsOf.simps split: prod.splits option.splits if_splits
      dest: roundTrip_colls_eq)

lemma applySymptomsChecks_success:
  assumes "applySymptomsChecks sw w = (None, w1)"
  shows "symptoms26 (colls w1 (nsOf sw)) \<noteq> []"
    and "symptoms26 (colls w (nsOf sw)) = [] \<Longrightarrow> length (symptoms26 (colls w1 (nsOf sw))) = 1"
proof -
  let ?flt = "[(''app_version'', BString ''2.6'')]"
  from assms obtain wa items wb where
    a: "AddIndex sw [(''app_version'', 1)] False w = (None, wa)"
    and f: "Find sw ?flt wa = (Inr items, wb)"
    and rest: "(if length items \<le> 0 then
             bindE (ReadFile ''./driven/storage/symptoms_2.6.json'')
               (\<lambda>data. andThen (InsertOne sw (marshalSymptoms ''2.6'' data)) returnNil)
           else returnNil) wb = (None, w1)"
    by (auto simp: applySymptomsChecks_def andThen_def bindE_def Let_def simp del: nsOf.simps
        split: prod.splits option.splits sum.splits)
  have da: "docs (colls wa (nsOf sw)) = docs (colls w (nsOf sw))"
    using keepsDocs_AddIndex a by (rule keepsDocsD)
  from Find_result [OF f] da
  have items: "items = symptoms26 (colls w (nsOf sw))"
    and db: "docs (colls wb (nsOf sw)) = docs (colls w (nsOf sw))"
    by (simp_all add: symptoms26_def del: nsOf.simps)
  have "symptoms26 (colls w1 (nsOf sw)) \<noteq> [] \<and>
        (symptoms26 (colls w (nsOf sw)) = [] \<longrightarrow> length (symptoms26 (colls w1 (nsOf sw))) = 1)"
  proof (cases "items = []")
    case True
    with rest obtain content wc where
      rf: "ReadFile ''./driven/storage/symptoms_2.6.json'' wb = (Inr content, wc)"
      and ins: "InsertOne sw (marshalSymptoms ''2.6'' content) wc = (None, w1)"
      by (auto simp: bindE_def andThen_def returnNil_def simp del: nsOf.simps
          split: prod.splits option.splits sum.splits)
    from rf have "wc = wb" by (auto simp: ReadFile_def split: option.splits)
    with InsertOne_result [OF ins] db
    have "docs (colls w1 (nsOf sw)) = docs (colls w (nsOf sw)) @ [marshalSymptoms ''2.6'' content]"
      by (simp del: nsOf.simps)
    then have "symptoms26 (colls w1 (nsOf sw)) =
        symptoms26 (colls w (nsOf sw)) @ [marshalSymptoms ''2.6'' content]"
      by (simp add: symptoms26_def matches_def marshalSymptoms_def del: nsOf.simps)
    then show ?thesis by (simp del: nsOf.simps)
  next
    case False
    with rest have "w1 = wb" by (simp add: returnNil_def)
    with False items db show ?thesis by (simp add: symptoms26_def del: nsOf.simps)
  qed
  then show "symptoms26 (colls w1 (nsOf sw)) \<noteq> []"
    and "symptoms26 (colls w (nsOf sw)) = [] \<Longrightarrow> length (symptoms26 (colls w1 (nsOf sw))) = 1"
    by simp_all
qed

lemma InsertOne_failed:
  assumes "InsertOne cw d w = (Some e, w')"
  shows "colls w' = colls w"
  using assms
  by (auto simp: InsertOne_def Let_def simp del: nsOf.simps split: prod.splits option.splits if_splits
      dest: roundTrip_colls_eq)

lemma applySymptomsChecks_inserts_at_most_one:
  assumes run: "applySymptomsChecks sw w = (r, w1)"
  shows "symptoms26 (colls w1 (nsOf sw)) = symptoms26 (colls w (nsOf sw)) \<or>
         (symptoms26 (colls w (nsOf sw)) = [] \<and> length (symptoms26 (colls w1 (nsOf sw))) = 1)"
proof -
  let ?flt = "[(''app_version'', BString ''2.6'')]"
  let ?A = "AddIndex sw [(''app_version'', 1)] False"
  let ?path = "''./driven/storage/symptoms_2.6.json''"
  have same: ?thesis if "w1 = v" and "docs (colls v (nsOf sw)) = docs (colls w (nsOf sw))" for v
    using that by (simp add: symptoms26_def del: nsOf.simps)
  obtain ra wa where a: "?A w = (ra, wa)" by (cases "?A w")
  have da: "docs (colls wa (nsOf sw)) = docs (colls w (nsOf sw))"
    using keepsDocs_AddIndex a by (rule keepsDocsD)
  show ?thesis
  proof (cases ra)
    case (Some e)
    with a run have "w1 = wa"
      by (simp add: applySymptomsChecks_def andThen_def Let_def del: nsOf.simps)
    then show ?thesis using da by (rule same)
  next
    case ra: None
    obtain rf wb where f: "Find sw ?flt wa = (rf, wb)" by (cases "Find sw ?flt wa")
    have db: "docs (colls wb (nsOf sw)) = docs (colls w (nsOf sw))"
      using keepsDocsD [OF keepsDocs_Find f] da by (simp del: nsOf.simps)
    show ?thesis
    proof (cases rf)
      case (Inl e)
      with a ra f run have "w1 = wb"
        by (simp add: applySymptomsChecks_def andThen_def bindE_def Let_def del: nsOf.simps)
      then show ?thesis using db by (rule same)
    next
      case (Inr items)
      with f Find_result(1) [of sw ?flt wa items wb] da
      have items: "items = symptoms26 (colls w (nsOf sw))"
        by (simp add: symptoms26_def del: nsOf.simps)
      show ?thesis
      proof (cases "items = []")
        case False
        with a ra f Inr run have "w1 = wb"
          by (simp add: applySymptomsChecks_def andThen_def bindE_def returnNil_def Let_def
              del: nsOf.simps)
        then show ?thesis using db by (rule same)
      next
        case empty: True
        show ?thesis
        proof (cases "files wb ?path")
          case None
          with a ra f Inr empty run have "w1 = wb"
            by (simp add: applySymptomsChecks_def andThen_def bindE_def ReadFile_def Let_def
                del: nsOf.simps)
          then show ?thesis using db by (rule same)
        next
          case (Some content)
          obtain ri wd where i: "InsertOne sw (marshalSymptoms ''2.6'' content) wb = (ri, wd)"
            by (cases "InsertOne sw (marshalSymptoms ''2.6'' content) wb")
          with a ra f Inr empty Some run have w1: "w1 = wd" and r: "r = ri"
            by (auto simp: applySymptomsChecks_def andThen_def bindE_def ReadFile_def returnNil_def
                Let_def simp del: nsOf.simps split: option.splits)
          show ?thesis
          proof (cases ri)
            case (Some e)
            with i InsertOne_failed have "colls wd = colls wb" by blast
            with db have "docs (colls wd (nsOf sw)) = docs (colls w (nsOf sw))"
              by (simp del: nsOf.simps)
            with w1 show ?thesis by (rule same)
          next
            case None
            with i InsertOne_result
            have "docs (colls wd (nsOf sw)) = docs (colls wb (nsOf sw)) @ [marshalSymptoms ''2.6'' content]"
              by blast
            with db have "symptoms26 (colls wd (nsOf sw)) =
                symptoms26 (colls w (nsOf sw)) @ [marshalSymptoms ''2.6'' content]"
              by (simp add: symptoms26_def matches_def marshalSymptoms_def del: nsOf.simps)
            with items empty w1 show ?thesis by (simp del: nsOf.simps)
          qed
        qed
      qed
    qed
  qed
qed

text \<open>
  Claim C4. For every store state, behind a driver that fails no call, a second
  run of \<^verbatim>\<open>applySymptomsChecks\<close> in a row leaves the number of documents with
  app_version "2.6" as the first run left it, whatever the first run returned; the
  same holds behind any driver once the first run has returned \<^verbatim>\<open>nil\<close>. After a
  first run that returns \<^verbatim>\<open>nil\<close> there is at least one such document, exactly one
  when there was none before, and the second run changes no document of any
  collection. Whatever the driver does and whatever a run returns, the run adds
  such a document only when there was none, and then exactly one.
\<close>

theorem seeding_at_most_once:
  "(applySymptomsChecks sw w = (r1, w1) \<and> applySymptomsChecks sw w1 = (r2, w2) \<and>
    (r1 = None \<or> script w = []) \<longrightarrow>
      length (symptoms26 (colls w2 (nsOf sw))) = length (symptoms26 (colls w1 (nsOf sw)))) \<and>
   (applySymptomsChecks sw w = (None, w1) \<and> applySymptomsChecks sw w1 = (r2, w2) \<longrightarrow>
      1 \<le> length (symptoms26 (colls w1 (nsOf sw))) \<and>
      (\<forall>ns. docs (colls w2 ns) = docs (colls w1 ns))) \<and>
   (applySymptomsChecks sw w = (None, w1) \<and> applySymptomsChecks sw w1 = (r2, w2) \<and>
    symptoms26 (colls w (nsOf sw)) = [] \<longrightarrow>
      length (symptoms26 (colls w1 (nsOf sw))) = 1 \<and>
      length (symptoms26 (colls w2 (nsOf sw))) = 1) \<and>
   (applySymptomsChecks sw w = (r1, w1) \<longrightarrow>
      symptoms26 (colls w1 (nsOf sw)) = symptoms26 (colls w (nsOf sw)) \<or>
      (symptoms26 (colls w (nsOf sw)) = [] \<and> length (symptoms26 (colls w1 (nsOf sw))) = 1))"
proof -
  have once: "1 \<le> length (symptoms26 (colls w1 (nsOf sw))) \<and>
      (\<forall>ns. docs (colls w2 ns) = docs (colls w1 ns))"
    if s: "applySymptomsChecks sw w = (None, w1)" and t: "applySymptomsChecks sw w1 = (r2, w2)"
    for w w1 r2 w2
  proof -
    from applySymptomsChecks_success(1) [OF s]
    have ne: "symptoms26 (colls w1 (nsOf sw)) \<noteq> []" .
    then have "1 \<le> length (symptoms26 (colls w1 (nsOf sw)))"
      by (cases "symptoms26 (colls w1 (nsOf sw))") simp_all
    moreover from Find_nonempty_keeps [OF ne] t
    have "\<forall>ns. docs (colls w2 ns) = docs (colls w1 ns)" by simp
    ultimately show ?thesis by simp
  qed
  have c1: "length (symptoms26 (colls w2 (nsOf sw))) = length (symptoms26 (colls w1 (nsOf sw)))"
    if a: "applySymptomsChecks sw w = (r1, w1) \<and> applySymptomsChecks sw w1 = (r2, w2) \<and>
      (r1 = None \<or> script w = [])"
  proof (cases r1)
    case None
    with a once [of w w1 r2 w2]
    have "docs (colls w2 (nsOf sw)) = docs (colls w1 (nsOf sw))" by blast
    then show ?thesis by (simp add: symptoms26_def del: nsOf.simps)
  next
    case (Some e)
    with a have "script w = []" and "applySymptomsChecks sw w = (Some e, w1)" by simp_all
    from quiet_repeat_failure [OF this] a have "w2 = w1" by simp
    then show ?thesis by simp
  qed
  have c2: "1 \<le> length (symptoms26 (colls w1 (nsOf sw))) \<and>
      (\<forall>ns. docs (colls w2 ns) = docs (colls w1 ns))"
    if "applySymptomsChecks sw w = (None, w1) \<and> applySymptomsChecks sw w1 = (r2, w2)"
    using that once [of w w1 r2 w2] by blast
  have c3: "length (symptoms26 (colls w1 (nsOf sw))) = 1 \<and>
      length (symptoms26 (colls w2 (nsOf sw))) = 1"
    if a: "applySymptomsChecks sw w = (None, w1) \<and> applySymptomsChecks sw w1 = (r2, w2) \<and>
      symptoms26 (colls w (nsOf sw)) = []"
  proof -
    from a have one: "length (symptoms26 (colls w1 (nsOf sw))) = 1"
      using applySymptomsChecks_success(2) [of sw w w1] by simp
    moreover from a once [of w w1 r2 w2]
    have "docs (colls w2 (nsOf sw)) = docs (colls w1 (nsOf sw))" by blast
    then have "symptoms26 (colls w2 (nsOf sw)) = symptoms26 (colls w1 (nsOf sw))"
      by (simp add: symptoms26_def del: nsOf.simps)
    ultimately show ?thesis by simp
  qed
  have c4: "symptoms26 (colls w1 (nsOf sw)) = symptoms26 (colls w (nsOf sw)) \<or>
      (symptoms26 (colls w (nsOf sw)) = [] \<and> length (symptoms26 (colls w1 (nsOf sw))) = 1)"
    if "applySymptomsChecks sw w = (r1, w1)"
    using that by (rule applySymptomsChecks_inserts_at_most_one)
  from c1 c2 c3 c4 show ?thesis by blast
qed

lemma symptoms_fresh_once:
  "applySymptomsChecks (wrapperOf (Database (Client ''mongodb://db'') ''health'') ''symptoms'')
     (freshWorld seedFiles []) =
     (None, (freshWorld seedFiles [])
        \<lparr>colls := (\<lambda>ns. emptyCollection)
           ((''health'', ''symptoms'') :=
              \<lparr>docs = [marshalSymptoms ''2.6'' ''[symptoms]''],
               indexes = [\<lparr>keys = [(''app_version'', 1)], unique = False\<rparr>]\<rparr>)\<rparr>)"
  by (simp add: applySymptomsChecks_def andThen_def bindE_def returnNil_def AddIndex_def Find_def
      ReadFile_def InsertOne_def roundTrip_def nextReply_def matches_def indexKey_def
      wrapperOf_def freshWorld_def emptyCollection_def seedFiles_def Let_def)

theorem seeding_at_most_once_witness:
  "length (symptoms26 (colls (snd (applySymptomsChecks
       (wrapperOf (Database (Client ''mongodb://db'') ''health'') ''symptoms'')
       (freshWorld seedFiles [])))
     (''health'', ''symptoms''))) = 1 \<and>
   length (symptoms26 (colls (snd (applySymptomsChecks
       (wrapperOf (Database (Client ''mongodb://db'') ''health'') ''symptoms'')
       (snd (applySymptomsChecks
          (wrapperOf (Database (Client ''mongodb://db'') ''health'') ''symptoms'')
          (freshWorld seedFiles [])))))
     (''health'', ''symptoms''))) = 1"
proof -
  let ?sw = "wrapperOf (Database (Client ''mongodb://db'') ''health'') ''symptoms''"
  let ?w = "freshWorld seedFiles []"
  obtain w1 where s: "applySymptomsChecks ?sw ?w = (None, w1)"
    using symptoms_fresh_once by blast
  obtain r2 w2 where t: "applySymptomsChecks ?sw w1 = (r2, w2)"
    by (cases "applySymptomsChecks ?sw w1")
  have e: "symptoms26 (colls ?w (nsOf ?sw)) = []"
    by (simp add: symptoms26_def freshWorld_def emptyCollection_def)
  have n: "nsOf ?sw = (''health'', ''symptoms'')" by (simp add: wrapperOf_def)
  from seeding_at_most_once [of ?sw ?w None w1 r2 w2] s t e
  have "length (symptoms26 (colls w1 (nsOf ?sw))) = 1 \<and>
        length (symptoms26 (colls w2 (nsOf ?sw))) = 1"
    by blast
  with s t show ?thesis unfolding n by simp
qed

section \<open>Index provisioning on a fresh store\<close>

lemma fresh_indexes_idempotent:
  "list_all (\<lambda>(name, chk). provisionsIdempotently (freshWorld fs us) chk)
     (provisioning (Database client dbn))"
  apply (simp add: provisioning_def wrapperOf_def provisionsIdempotently_def)
  apply (simp add: check_defs driver_defs freshWorld_def emptyCollection_def
      split: option.splits list.splits)
  done

lemma fresh_second_run_result:
  assumes "fs ''./driven/storage/symptoms_2.6.json'' = Some content" and "us = u1 # u2 # rest"
  shows "list_all (\<lambda>(name, chk).
           fst (chk (snd (chk (freshWorld fs us)))) =
             (if name = ''crules'' then Some (ErrorsNew ''there is no a Champaign county'')
              else None))
     (provisioning (Database client dbn))"
  using assms
  apply (simp add: provisioning_def wrapperOf_def)
  apply (simp add: check_defs driver_defs freshWorld_def emptyCollection_def)
  done

lemma users_indexes_example:
  "indexes (colls (snd (applyUsersChecks (wrapperOf (Database client dbn) ''users'')
      (freshWorld fs us))) (dbn, ''users'')) =
   [\<lparr>keys = [(''external_id'', 1)], unique = True\<rparr>,
    \<lparr>keys = [(''shibboleth_auth.uiucedu_uin'', 1)], unique = False\<rparr>,
    \<lparr>keys = [(''uuid'', 1)], unique = False\<rparr>,
    \<lparr>keys = [(''re_post'', 1)], unique = False\<rparr>]"
  by (simp add: wrapperOf_def applyUsersChecks_def driver_defs freshWorld_def emptyCollection_def)

text \<open>
  Claim C6, as the code has it. On a fresh store, behind a driver that fails no
  call, every check of \<^verbatim>\<open>start\<close> run twice in a row leaves the indexes of every
  collection as one run leaves them, without a duplicate. With the symptoms seed
  file readable and two UUIDs available, the second run returns \<^verbatim>\<open>nil\<close> for every
  check but one: \<^verbatim>\<open>applyCRulesChecks\<close> returns the error of line 665 (on both runs),
  since a fresh store holds no county named "Champaign".
\<close>

theorem index_provisioning_idempotent_on_fresh_store:
  "list_all (\<lambda>(name, chk). provisionsIdempotently (freshWorld fs us) chk)
     (provisioning (Database client dbn)) \<and>
   (fs ''./driven/storage/symptoms_2.6.json'' = Some content \<and> us = u1 # u2 # rest \<longrightarrow>
      list_all (\<lambda>(name, chk).
           fst (chk (snd (chk (freshWorld fs us)))) =
             (if name = ''crules'' then Some (ErrorsNew ''there is no a Champaign county'')
              else None))
        (provisioning (Database client dbn)))"
  using fresh_indexes_idempotent [of fs us client dbn]
    fresh_second_run_result [of fs content us u1 u2 rest client dbn]
  by blast

text \<open>
  The claim as stated fails for \<^verbatim>\<open>applyCRulesChecks\<close>: on a fresh store its second run
  in a row returns an error.
\<close>

theorem crules_second_run_counterexample:
  "fst (applyCRulesChecks
          (wrapperOf (Database (Client ''mongodb://db'') ''health'') ''crules'')
          (wrapperOf (Database (Client ''mongodb://db'') ''health'') ''counties'')
          (snd (applyCRulesChecks
                  (wrapperOf (Database (Client ''mongodb://db'') ''health'') ''crules'')
                  (wrapperOf (Database (Client ''mongodb://db'') ''health'') ''counties'')
                  (freshWorld seedFiles [''uuid-1'', ''uuid-2'']))))
     = Some (ErrorsNew ''there is no a Champaign county'')"
  by (simp add: wrapperOf_def applyCRulesChecks_def driver_defs freshWorld_def emptyCollection_def)

theorem index_provisioning_idempotent_on_fresh_store_witness:
  "provisionsIdempotently (freshWorld seedFiles [''uuid-1'', ''uuid-2''])
     (applyUsersChecks (wrapperOf (Database (Client ''mongodb://db'') ''health'') ''users'')) \<and>
   fst (applyUsersChecks (wrapperOf (Database (Client ''mongodb://db'') ''health'') ''users'')
     (snd (applyUsersChecks (wrapperOf (Database (Client ''mongodb://db'') ''health'') ''users'')
        (freshWorld seedFiles [''uuid-1'', ''uuid-2''])))) = None \<and>
   provisionsIdempotently (freshWorld seedFiles [''uuid-1'', ''uuid-2''])
     (applySymptomsChecks (wrapperOf (Database (Client ''mongodb://db'') ''health'') ''symptoms'')) \<and>
   fst (applySymptomsChecks (wrapperOf (Database (Client ''mongodb://db'') ''health'') ''symptoms'')
     (snd (applySymptomsChecks (wrapperOf (Database (Client ''mongodb://db'') ''health'') ''symptoms'')
        (freshWorld seedFiles [''uuid-1'', ''uuid-2''])))) = None"
proof -
  have f: "seedFiles ''./driven/storage/symptoms_2.6.json'' = Some ''[symptoms]''"
    by (simp add: seedFiles_def)
  from index_provisioning_idempotent_on_fresh_store [of seedFiles "[''uuid-1'', ''uuid-2'']"
      "Client ''mongodb://db''" "''health''" "''[symptoms]''" "''uuid-1''" "''uuid-2''" "[]"] f
  show ?thesis by (simp add: provisioning_def)
qed

end
